theory Spec2Isabelle
  imports Complex_Main "HOL-Library.Word" "HOL-Library.Stream" "HOL-Library.Log_Nat"
begin

section \<open>Host values\<close>

text \<open>
  The script \<^verbatim>\<open>app.js\<close> runs in a browser: it reads with \<^verbatim>\<open>prompt\<close> and writes with
  \<^verbatim>\<open>console.log\<close>. A JavaScript string is a sequence of 16-bit code units.
  \<open>js\<close> turns a literal into such a sequence; every character of the literals of the
  script lies in Latin-1, where the character code is the code unit.
\<close>

type_synonym code_unit = "16 word"
type_synonym jsstring = "code_unit list"

definition js :: "string \<Rightarrow> jsstring" where
  "js s = map of_char s"

text \<open>
  A Number is NaN, one of the two infinities, or a finite value. A finite Number is
  modelled by the rational it denotes; the two zeros are one value (which \<^verbatim>\<open>===\<close> cannot
  tell apart either).
\<close>

datatype number = NaN | PInf | NInf | Fin rat

subsection \<open>Rounding to binary64\<close>

text \<open>
  The result of an arithmetic operation on finite Numbers, and of a parsing function,
  is the exact value rounded to binary64, to the nearest value with ties to the even
  significand: 53 bits of significand, exponents from -1022 to 1023, gradual underflow
  below, and an infinity from \<open>2^1024\<close> on.
\<close>

text \<open>The nearest integer, a tie going to the even one.\<close>

definition round_half_even :: "rat \<Rightarrow> int" where
  "round_half_even x =
     (let f = \<lfloor>x\<rfloor>; d = x - of_int f
      in if d < 1 / 2 then f else if 1 / 2 < d then f + 1 else if even f then f else f + 1)"

text \<open>For \<open>0 < a\<close>, the exponent \<open>e\<close> with \<open>2^e \<le> a < 2^(e+1)\<close>.\<close>

definition floor_log2 :: "rat \<Rightarrow> int" where
  "floor_log2 a = (if 1 \<le> a then bitlen \<lfloor>a\<rfloor> - 1 else - bitlen (\<lceil>1 / a\<rceil> - 1))"

definition binary64_overflow :: rat where
  "binary64_overflow = 2 ^ 1024"

text \<open>
  The magnitude is rounded to a multiple of the unit in the last place of its binade
  (of the lowest binade for a subnormal magnitude); a rounded magnitude of \<open>2^1024\<close>
  or more is an infinity; the sign is put back.
\<close>

definition round_binary64 :: "rat \<Rightarrow> number" where
  "round_binary64 q =
     (if q = 0 then Fin 0
      else
       (let a = \<bar>q\<bar>;
            e = max (floor_log2 a) (- 1022);
            ulp = 2 powi (e - 52);
            r = of_int (round_half_even (a / ulp)) * ulp
        in if binary64_overflow \<le> r then (if q < 0 then NInf else PInf)
           else Fin (if q < 0 then - r else r)))"

text \<open>\<^verbatim>\<open>prompt\<close> returns the text typed, or \<^verbatim>\<open>null\<close> when the dialog is dismissed.\<close>

datatype prompt_result = Null | Str jsstring

text \<open>The arguments the script gives to \<^verbatim>\<open>console.log\<close> are strings and Numbers.\<close>

datatype jsval = JStr jsstring | JNum number

text \<open>Strict equality \<^verbatim>\<open>===\<close> of two Numbers: NaN equals nothing, itself included.\<close>

definition number_strict_equals :: "number \<Rightarrow> number \<Rightarrow> bool" where
  "number_strict_equals x y = (x \<noteq> NaN \<and> y \<noteq> NaN \<and> x = y)"

text \<open>
  Strict equality of a prompt result and a string: the same type and the same code
  units. No conversion is applied.
\<close>

fun string_strict_equals :: "prompt_result \<Rightarrow> jsstring \<Rightarrow> bool" where
  "string_strict_equals Null t = False"
| "string_strict_equals (Str s) t = (s = t)"

text \<open>\<^verbatim>\<open>ToString\<close> of a prompt result.\<close>

fun ToString :: "prompt_result \<Rightarrow> jsstring" where
  "ToString Null = js ''null''"
| "ToString (Str s) = s"

text \<open>
  \<^verbatim>\<open>ToString\<close> of a Number that is a natural number (below \<open>10^21\<close>): its decimal
  digits. The template literal of \<^verbatim>\<open>solicitarCincoNumeros\<close> applies it to \<^verbatim>\<open>i + 1\<close>.
\<close>

fun nat_ToString :: "nat \<Rightarrow> jsstring" where
  "nat_ToString n =
     (if n < 10 then [of_nat (48 + n)]
      else nat_ToString (n div 10) @ [of_nat (48 + n mod 10)])"

subsection \<open>\<^verbatim>\<open>parseInt\<close> and \<^verbatim>\<open>parseFloat\<close>\<close>

text \<open>The code units of \<^verbatim>\<open>WhiteSpace\<close> and \<^verbatim>\<open>LineTerminator\<close>.\<close>

definition is_white_space :: "code_unit \<Rightarrow> bool" where
  "is_white_space c =
     (c \<in> set [0x09, 0x0A, 0x0B, 0x0C, 0x0D, 0x20, 0xA0, 0x1680, 0x2028, 0x2029,
                0x202F, 0x205F, 0x3000, 0xFEFF]
      \<or> (0x2000 \<le> c \<and> c \<le> 0x200A))"

definition TrimString_start :: "jsstring \<Rightarrow> jsstring" where
  "TrimString_start s = dropWhile is_white_space s"

text \<open>The value of a code unit as a digit: \<open>0-9\<close>, then \<open>a-z\<close> or \<open>A-Z\<close> for 10 to 35.\<close>

definition digit_value :: "code_unit \<Rightarrow> nat option" where
  "digit_value c =
     (if 0x30 \<le> c \<and> c \<le> 0x39 then Some (unat c - 48)
      else if 0x61 \<le> c \<and> c \<le> 0x7A then Some (unat c - 87)
      else if 0x41 \<le> c \<and> c \<le> 0x5A then Some (unat c - 55)
      else None)"

definition is_radix_digit :: "nat \<Rightarrow> code_unit \<Rightarrow> bool" where
  "is_radix_digit R c = (case digit_value c of None \<Rightarrow> False | Some d \<Rightarrow> d < R)"

text \<open>The integer that a run of digits denotes in the radix \<open>R\<close>.\<close>

definition digits_value :: "nat \<Rightarrow> jsstring \<Rightarrow> int" where
  "digits_value R Z =
     foldl (\<lambda>acc c. acc * int R + (case digit_value c of None \<Rightarrow> 0 | Some d \<Rightarrow> int d)) 0 Z"

text \<open>
  \<^verbatim>\<open>parseInt(string)\<close> with no radix, step by step as ECMA-262 gives it: convert to a
  string, trim leading white space, read a sign, read a \<^verbatim>\<open>0x\<close> prefix (radix 16,
  otherwise 10), keep the longest run of digits of the radix. No digit gives NaN;
  otherwise the result is the integer read, rounded to binary64.
\<close>

definition parseInt :: "prompt_result \<Rightarrow> number" where
  "parseInt string =
     (let inputString = ToString string;
          S = TrimString_start inputString;
          sign = (if S \<noteq> [] \<and> hd S = 0x2D then - 1 else (1::int));
          S1 = (if S \<noteq> [] \<and> (hd S = 0x2B \<or> hd S = 0x2D) then tl S else S);
          stripPrefix = (2 \<le> length S1 \<and> (take 2 S1 = js ''0x'' \<or> take 2 S1 = js ''0X''));
          R = (if stripPrefix then 16 else 10);
          S2 = (if stripPrefix then drop 2 S1 else S1);
          Z = takeWhile (is_radix_digit R) S2
      in if Z = [] then NaN
         else round_binary64 (of_int (sign * digits_value R Z)))"

definition is_decimal_digit :: "code_unit \<Rightarrow> bool" where
  "is_decimal_digit c = (0x30 \<le> c \<and> c \<le> 0x39)"

text \<open>
  The \<^verbatim>\<open>ExponentPart\<close> at the head of a string, if there is one: \<^verbatim>\<open>e\<close> or \<^verbatim>\<open>E\<close>, an
  optional sign, at least one digit. Without a digit there is no exponent part.
\<close>

definition exponent_part :: "jsstring \<Rightarrow> int" where
  "exponent_part s =
     (if s \<noteq> [] \<and> (hd s = 0x65 \<or> hd s = 0x45) then
        (let s1 = tl s;
             neg = (s1 \<noteq> [] \<and> hd s1 = 0x2D);
             s2 = (if s1 \<noteq> [] \<and> (hd s1 = 0x2B \<or> hd s1 = 0x2D) then tl s1 else s1);
             ds = takeWhile is_decimal_digit s2
         in if neg then - digits_value 10 ds else digits_value 10 ds)
      else 0)"

definition scale10 :: "rat \<Rightarrow> int \<Rightarrow> rat" where
  "scale10 q e = (if 0 \<le> e then q * 10 ^ nat e else q / 10 ^ nat (- e))"

text \<open>
  \<^verbatim>\<open>parseFloat(string)\<close>: convert to a string, trim leading white space, take the
  longest prefix that is a \<^verbatim>\<open>StrDecimalLiteral\<close> (a sign, then \<^verbatim>\<open>Infinity\<close> or digits
  with an optional fraction and exponent part). No such prefix gives NaN; otherwise the
  result is the value of the prefix, rounded to binary64.
\<close>

definition parseFloat :: "prompt_result \<Rightarrow> number" where
  "parseFloat string =
     (let trimmed = TrimString_start (ToString string);
          neg = (trimmed \<noteq> [] \<and> hd trimmed = 0x2D);
          body = (if trimmed \<noteq> [] \<and> (hd trimmed = 0x2B \<or> hd trimmed = 0x2D)
                  then tl trimmed else trimmed)
      in if take 8 body = js ''Infinity'' then (if neg then NInf else PInf)
         else
          (let ip = takeWhile is_decimal_digit body;
               r1 = dropWhile is_decimal_digit body;
               has_dot = (r1 \<noteq> [] \<and> hd r1 = 0x2E);
               fp = (if has_dot then takeWhile is_decimal_digit (tl r1) else []);
               r2 = (if has_dot then dropWhile is_decimal_digit (tl r1) else r1)
           in if ip = [] \<and> fp = [] then NaN
              else
               (let mantissa = of_int (digits_value 10 (ip @ fp)) / 10 ^ length fp;
                    v = scale10 mantissa (exponent_part r2)
                in round_binary64 (if neg then - v else v))))"

section \<open>The world: pending input and what has been observed\<close>

text \<open>
  \<open>input\<close> holds the answers the user will give to the coming \<^verbatim>\<open>prompt\<close> calls, in
  order; \<open>trace\<close> holds what the script has done so far, oldest first: the dialogs it
  opened and the lines it logged.
\<close>

datatype event = Prompt jsstring | Log "jsval list"

record world =
  input :: "prompt_result stream"
  trace :: "event list"

definition prompt :: "jsstring \<Rightarrow> world \<Rightarrow> prompt_result \<times> world" where
  "prompt message w =
     (shd (input w), w\<lparr>input := stl (input w), trace := trace w @ [Prompt message]\<rparr>)"

definition console_log :: "jsval list \<Rightarrow> world \<Rightarrow> world" where
  "console_log args w = w\<lparr>trace := trace w @ [Log args]\<rparr>"

section \<open>The script\<close>

subsection \<open>1. \<^verbatim>\<open>loopWhile\<close>\<close>

definition msg_digite_um_numero :: jsstring where
  "msg_digite_um_numero = js (''Digite um n'' @ [CHR 0xFA] @ ''mero:'')"

definition msg_voce_digitou :: jsstring where
  "msg_voce_digitou = js (''Voc'' @ [CHR 0xEA] @ '' digitou:'')"

definition msg_digite_outro_numero :: jsstring where
  "msg_digite_outro_numero = js (''Digite outro n'' @ [CHR 0xFA] @ ''mero:'')"

definition msg_encerrando :: jsstring where
  "msg_encerrando = js (''N'' @ [CHR 0xFA] @ ''mero 3 digitado. Encerrando o loop.'')"

text \<open>
  The \<^verbatim>\<open>while\<close> loop, entered with the current \<open>numero\<close>. It may run forever, so its
  result is an option: \<open>None\<close> is a loop that never leaves.
\<close>

partial_function (option) loopWhile_loop :: "number \<Rightarrow> world \<Rightarrow> world option" where
  "loopWhile_loop numero w =
     (if \<not> number_strict_equals numero (Fin 3) then
        (let w1 = console_log [JStr msg_voce_digitou, JNum numero] w in
         case prompt msg_digite_outro_numero w1 of
           (r, w2) \<Rightarrow> loopWhile_loop (parseInt r) w2)
      else Some w)"

definition loopWhile :: "world \<Rightarrow> world option" where
  "loopWhile w =
     (case prompt msg_digite_um_numero w of
        (r, w1) \<Rightarrow>
          (case loopWhile_loop (parseInt r) w1 of
             None \<Rightarrow> None
           | Some w2 \<Rightarrow> Some (console_log [JStr msg_encerrando] w2)))"

subsection \<open>2. \<^verbatim>\<open>validaSenha\<close>\<close>

definition senhaCorreta :: jsstring where
  "senhaCorreta = js ''123456''"

definition msg_digite_a_senha :: jsstring where
  "msg_digite_a_senha = js ''Digite a senha de acesso:''"

definition msg_acesso_concedido :: jsstring where
  "msg_acesso_concedido = js ''Acesso concedido!''"

definition msg_senha_bloqueada :: jsstring where
  "msg_senha_bloqueada = js ''Senha bloqueada!''"

text \<open>
  One pass through the body of the \<^verbatim>\<open>do ... while\<close>, from the locals \<open>tentativas\<close> and
  \<open>acesso\<close>. The first component of the result tells whether the body left through
  \<^verbatim>\<open>break\<close>.
\<close>

definition validaSenha_body :: "nat \<Rightarrow> bool \<Rightarrow> world \<Rightarrow> bool \<times> nat \<times> bool \<times> world" where
  "validaSenha_body tentativas acesso w =
     (case prompt msg_digite_a_senha w of
        (tentativa, w1) \<Rightarrow>
          (let tentativas1 = tentativas + 1 in
           if string_strict_equals tentativa senhaCorreta
           then (True, tentativas1, True, w1)
           else (False, tentativas1, acesso, w1)))"

text \<open>The \<^verbatim>\<open>do ... while (tentativas < 3)\<close>: the body runs, then the condition is read.\<close>

function validaSenha_loop :: "nat \<Rightarrow> bool \<Rightarrow> world \<Rightarrow> nat \<times> bool \<times> world" where
  "validaSenha_loop tentativas acesso w =
     (case validaSenha_body tentativas acesso w of
        (broke, tentativas1, acesso1, w1) \<Rightarrow>
          if broke then (tentativas1, acesso1, w1)
          else if tentativas1 < 3 then validaSenha_loop tentativas1 acesso1 w1
          else (tentativas1, acesso1, w1))"
  by pat_completeness auto
termination
  by (relation "measure (\<lambda>(tentativas, acesso, w). 3 - tentativas)")
     (auto simp: validaSenha_body_def prompt_def split: if_splits)

definition validaSenha :: "world \<Rightarrow> world" where
  "validaSenha w =
     (case validaSenha_loop 0 False w of
        (tentativas, acesso, w1) \<Rightarrow>
          if acesso then console_log [JStr msg_acesso_concedido] w1
          else console_log [JStr msg_senha_bloqueada] w1)"

subsection \<open>3. \<^verbatim>\<open>exibirListaFixa\<close>\<close>

text \<open>\<^verbatim>\<open>xs.forEach(f)\<close> on a dense array: the callback runs on each element, first to last.\<close>

fun forEach :: "'a list \<Rightarrow> ('a \<Rightarrow> world \<Rightarrow> world) \<Rightarrow> world \<Rightarrow> world" where
  "forEach [] f w = w"
| "forEach (x # xs) f w = forEach xs f (f x w)"

definition msg_lista_fixa :: jsstring where
  "msg_lista_fixa = js (''Lista fixa de 4 n'' @ [CHR 0xFA] @ ''meros:'')"

definition exibirListaFixa :: "world \<Rightarrow> world" where
  "exibirListaFixa w =
     (let lista = [Fin 10, Fin 20, Fin 30, Fin 40];
          w1 = console_log [JStr msg_lista_fixa] w
      in forEach lista (\<lambda>numero. console_log [JNum numero]) w1)"

subsection \<open>4. \<^verbatim>\<open>solicitarCincoNumeros\<close>\<close>

text \<open>The template literal of the prompt, for the loop index \<open>i\<close>.\<close>

definition msg_digite_o :: "nat \<Rightarrow> jsstring" where
  "msg_digite_o i =
     js ''Digite o '' @ nat_ToString (i + 1) @ js ([CHR 0xBA] @ '' n'' @ [CHR 0xFA] @ ''mero:'')"

definition msg_numeros_digitados :: jsstring where
  "msg_numeros_digitados = js (''N'' @ [CHR 0xFA] @ ''meros digitados:'')"

text \<open>The \<^verbatim>\<open>for\<close> loop, from the index \<open>i\<close> and the array \<open>numeros\<close> built so far.\<close>

function solicitarCincoNumeros_loop :: "nat \<Rightarrow> number list \<Rightarrow> world \<Rightarrow> number list \<times> world" where
  "solicitarCincoNumeros_loop i numeros w =
     (if i < 5 then
        (case prompt (msg_digite_o i) w of
           (r, w1) \<Rightarrow>
             (let num = parseFloat r in
              solicitarCincoNumeros_loop (i + 1) (numeros @ [num]) w1))
      else (numeros, w))"
  by pat_completeness auto
termination
  by (relation "measure (\<lambda>(i, numeros, w). 5 - i)") auto

definition solicitarCincoNumeros :: "world \<Rightarrow> world" where
  "solicitarCincoNumeros w =
     (case solicitarCincoNumeros_loop 0 [] w of
        (numeros, w1) \<Rightarrow>
          (let w2 = console_log [JStr msg_numeros_digitados] w1
           in forEach numeros (\<lambda>numero. console_log [JNum numero]) w2))"

subsection \<open>5 to 8. The functions\<close>

definition mensagemPersonalizada :: jsstring where
  "mensagemPersonalizada = js (''Bem-vindo ao programa de Ci'' @ [CHR 0xEA] @ ''ncia de Dados!'')"

definition saudacao :: "jsstring \<Rightarrow> jsstring" where
  "saudacao nome =
     js (''Ol'' @ [CHR 0xE1] @ '', '') @ nome
       @ js ('', que bom ter voc'' @ [CHR 0xEA] @ '' no programa Trilhas.'')"

text \<open>
  \<^verbatim>\<open>base ** n\<close> for an exponent that is a natural number literal: anything to the power
  0 is 1, NaN stays NaN, an infinity keeps its size, and minus infinity keeps its sign
  under an odd exponent only. A finite base gives the exact power rounded to binary64;
  for the exponent 2 of the script that is the product \<^verbatim>\<open>numero * numero\<close>, rounded once.
\<close>

fun number_exponentiate :: "number \<Rightarrow> nat \<Rightarrow> number" where
  "number_exponentiate base 0 = Fin 1"
| "number_exponentiate NaN (Suc n) = NaN"
| "number_exponentiate PInf (Suc n) = PInf"
| "number_exponentiate NInf (Suc n) = (if odd (Suc n) then NInf else PInf)"
| "number_exponentiate (Fin q) (Suc n) = round_binary64 (q ^ Suc n)"

text \<open>
  \<^verbatim>\<open>x - y\<close> on Numbers: NaN and the difference of equal infinities give NaN, an
  infinity absorbs a finite Number, and the difference of two finite Numbers is rounded
  to binary64.
\<close>

fun number_subtract :: "number \<Rightarrow> number \<Rightarrow> number" where
  "number_subtract NaN y = NaN"
| "number_subtract x NaN = NaN"
| "number_subtract PInf PInf = NaN"
| "number_subtract NInf NInf = NaN"
| "number_subtract PInf y = PInf"
| "number_subtract NInf y = NInf"
| "number_subtract (Fin a) PInf = NInf"
| "number_subtract (Fin a) NInf = PInf"
| "number_subtract (Fin a) (Fin b) = round_binary64 (a - b)"

definition calcularQuadrado :: "number \<Rightarrow> number" where
  "calcularQuadrado numero = number_exponentiate numero 2"

definition Subtracao :: "number \<Rightarrow> number \<Rightarrow> number" where
  "Subtracao a b = number_subtract a b"

subsection \<open>The statements at top level\<close>

definition hdr_loop_while :: jsstring where
  "hdr_loop_while = js ''=== LOOP WHILE ===''"

definition hdr_validacao_de_senha :: jsstring where
  "hdr_validacao_de_senha =
     js ([CHR 0x0A] @ ''=== VALIDA'' @ [CHR 0xC7, CHR 0xC3] @ ''O DE SENHA (do...while) ==='')"

definition hdr_lista_fixa :: jsstring where
  "hdr_lista_fixa = js ([CHR 0x0A] @ ''=== LISTA FIXA ==='')"

definition hdr_solicitacao :: jsstring where
  "hdr_solicitacao =
     js ([CHR 0x0A] @ ''=== SOLICITA'' @ [CHR 0xC7, CHR 0xC3] @ ''O DE 5 N'' @ [CHR 0xDA]
         @ ''MEROS ==='')"

definition hdr_funcoes :: jsstring where
  "hdr_funcoes = js ([CHR 0x0A] @ ''=== FUN'' @ [CHR 0xC7, CHR 0xD5] @ ''ES ==='')"

definition msg_quadrado_de_5 :: jsstring where
  "msg_quadrado_de_5 = js ''Quadrado de 5:''"

definition msg_subtracao_de_10_e_3 :: jsstring where
  "msg_subtracao_de_10_e_3 = js (''Subtra'' @ [CHR 0xE7, CHR 0xE3] @ ''o de 10 e 3:'')"

text \<open>
  The script from its first statement to its last. \<open>None\<close> is a run that never leaves
  \<^verbatim>\<open>loopWhile\<close>: the statements after the call are then never reached.
\<close>

definition top_level :: "world \<Rightarrow> world option" where
  "top_level w0 =
     (let w1 = console_log [JStr hdr_loop_while] w0 in
      case loopWhile w1 of
        None \<Rightarrow> None
      | Some w2 \<Rightarrow>
          (let w3 = console_log [JStr hdr_validacao_de_senha] w2;
               w4 = validaSenha w3;
               w5 = console_log [JStr hdr_lista_fixa] w4;
               w6 = exibirListaFixa w5;
               w7 = console_log [JStr hdr_solicitacao] w6;
               w8 = solicitarCincoNumeros w7;
               w9 = console_log [JStr hdr_funcoes] w8;
               w10 = console_log [JStr mensagemPersonalizada] w9;
               w11 = console_log [JStr (saudacao (js ''Ana''))] w10;
               w12 = console_log [JStr msg_quadrado_de_5, JNum (calcularQuadrado (Fin 5))] w11;
               w13 = console_log
                       [JStr msg_subtracao_de_10_e_3, JNum (Subtracao (Fin 10) (Fin 3))] w12
           in Some w13))"

declare validaSenha_loop.simps [simp del]
declare solicitarCincoNumeros_loop.simps [simp del]

section \<open>Observations\<close>

text \<open>The world in which the script starts: nothing done yet, \<open>s\<close> still to be typed.\<close>

definition init_world :: "prompt_result stream \<Rightarrow> world" where
  "init_world s = \<lparr>input = s, trace = []\<rparr>"

text \<open>
  The value carried by a line that \<^verbatim>\<open>loopWhile\<close> logs inside its loop (the label
  \<open>msg_voce_digitou\<close> and one Number), and the values of all such lines of a trace,
  in order.
\<close>

fun digitou_value :: "event \<Rightarrow> number option" where
  "digitou_value (Log [JStr s, JNum n]) = (if s = msg_voce_digitou then Some n else None)"
| "digitou_value _ = None"

definition digitou_values :: "event list \<Rightarrow> number list" where
  "digitou_values es = List.map_filter digitou_value es"

text \<open>What one round of the loop of \<^verbatim>\<open>loopWhile\<close> does after having read \<open>x\<close>.\<close>

definition digitou_round :: "prompt_result \<Rightarrow> event list" where
  "digitou_round x =
     [Log [JStr msg_voce_digitou, JNum (parseInt x)], Prompt msg_digite_outro_numero]"

text \<open>The locals \<open>tentativas\<close> and \<open>acesso\<close> of \<^verbatim>\<open>validaSenha\<close> when its loop is left.\<close>

definition validaSenha_tentativas :: "world \<Rightarrow> nat" where
  "validaSenha_tentativas w = fst (validaSenha_loop 0 False w)"

definition validaSenha_acesso :: "world \<Rightarrow> bool" where
  "validaSenha_acesso w = fst (snd (validaSenha_loop 0 False w))"

text \<open>The world after \<open>k\<close> password dialogs.\<close>

definition asked :: "nat \<Rightarrow> world \<Rightarrow> world" where
  "asked k w =
     w\<lparr>input := sdrop k (input w),
       trace := trace w @ replicate k (Prompt msg_digite_a_senha)\<rparr>"

text \<open>The array \<open>numeros\<close> of \<^verbatim>\<open>solicitarCincoNumeros\<close> when its loop is left.\<close>

definition solicitarCincoNumeros_numeros :: "world \<Rightarrow> number list" where
  "solicitarCincoNumeros_numeros w = fst (solicitarCincoNumeros_loop 0 [] w)"

text \<open>The comparisons \<^verbatim>\<open>x < y\<close> and \<^verbatim>\<open>x <= y\<close> of Numbers: false whenever NaN takes part.\<close>

fun number_less :: "number \<Rightarrow> number \<Rightarrow> bool" where
  "number_less NaN y = False"
| "number_less x NaN = False"
| "number_less PInf y = False"
| "number_less NInf NInf = False"
| "number_less NInf y = True"
| "number_less (Fin a) PInf = True"
| "number_less (Fin a) NInf = False"
| "number_less (Fin a) (Fin b) = (a < b)"

definition number_less_eq :: "number \<Rightarrow> number \<Rightarrow> bool" where
  "number_less_eq x y = (number_less x y \<or> number_strict_equals x y)"

text \<open>A section header: a line that is one of the five header strings of the script.\<close>

fun is_section_header :: "event \<Rightarrow> bool" where
  "is_section_header (Log [JStr s]) =
     (s \<in> set [hdr_loop_while, hdr_validacao_de_senha, hdr_lista_fixa, hdr_solicitacao,
                hdr_funcoes])"
| "is_section_header _ = False"

text \<open>
  The number of password dialogs \<^verbatim>\<open>validaSenha\<close> opens when \<open>s\<close> is what remains to be
  typed: it stops at the first of three answers that is the secret.
\<close>

definition senha_dialogs :: "prompt_result stream \<Rightarrow> nat" where
  "senha_dialogs s =
     (if s !! 0 = Str senhaCorreta then 1 else if s !! 1 = Str senhaCorreta then 2 else 3)"

text \<open>
  The events expected of a whole run of the script in which \<^verbatim>\<open>loopWhile\<close> reads the
  answers \<open>xs\<close> and the rest of the script reads from \<open>s\<close>: for each component the line
  logged before its call, if there is one, and then the events of the component.
\<close>

definition top_level_events :: "prompt_result list \<Rightarrow> prompt_result stream \<Rightarrow> event list" where
  "top_level_events xs s =
     [Log [JStr hdr_loop_while], Prompt msg_digite_um_numero]
     @ concat (map digitou_round (butlast xs))
     @ [Log [JStr msg_encerrando]]
     @ [Log [JStr hdr_validacao_de_senha]]
     @ replicate (senha_dialogs s) (Prompt msg_digite_a_senha)
     @ [Log [JStr (if Str senhaCorreta \<in> set (stake 3 s)
                   then msg_acesso_concedido else msg_senha_bloqueada)]]
     @ [Log [JStr hdr_lista_fixa], Log [JStr msg_lista_fixa], Log [JNum (Fin 10)],
        Log [JNum (Fin 20)], Log [JNum (Fin 30)], Log [JNum (Fin 40)]]
     @ [Log [JStr hdr_solicitacao], Prompt (msg_digite_o 0), Prompt (msg_digite_o 1),
        Prompt (msg_digite_o 2), Prompt (msg_digite_o 3), Prompt (msg_digite_o 4),
        Log [JStr msg_numeros_digitados]]
     @ map (\<lambda>numero. Log [JNum numero]) (map parseFloat (stake 5 (sdrop (senha_dialogs s) s)))
     @ [Log [JStr hdr_funcoes], Log [JStr mensagemPersonalizada],
        Log [JStr (saudacao (js ''Ana''))],
        Log [JStr msg_quadrado_de_5, JNum (Fin 25)],
        Log [JStr msg_subtracao_de_10_e_3, JNum (Fin 7)]]"

text \<open>The section headers logged by a run, in order; none for a run that never ends.\<close>

definition section_headers :: "world option \<Rightarrow> event list" where
  "section_headers r = (case r of None \<Rightarrow> [] | Some w \<Rightarrow> filter is_section_header (trace w))"

section \<open>Properties\<close>

subsection \<open>Rounding\<close>

lemma powi_nat: "0 \<le> e \<Longrightarrow> (2::rat) powi e = 2 ^ nat e"
  by (simp add: power_int_def)

lemma floor_log2_ge1:
  assumes "1 \<le> a"
  shows "2 powi (floor_log2 a) \<le> a \<and> a < 2 powi (floor_log2 a + 1)"
proof -
  let ?n = "\<lfloor>a\<rfloor>"
  from assms have n: "0 < ?n" by simp
  from bitlen_bounds[OF n] have lo: "2 ^ nat (bitlen ?n - 1) \<le> ?n" and hi: "?n < 2 ^ nat (bitlen ?n)"
    by simp_all
  from n have b1: "1 \<le> bitlen ?n" by (simp add: bitlen_alt_def)
  have fl: "floor_log2 a = bitlen ?n - 1" using assms by (simp add: floor_log2_def)
  have "(2::rat) powi (bitlen ?n - 1) = of_int (2 ^ nat (bitlen ?n - 1))"
    using b1 by (simp add: powi_nat)
  also have "\<dots> \<le> of_int ?n" using lo by (simp only: of_int_le_iff)
  also have "\<dots> \<le> a" by simp
  finally have A: "2 powi (floor_log2 a) \<le> a" by (simp add: fl)
  from hi have "?n + 1 \<le> 2 ^ nat (bitlen ?n)" by simp
  then have "(of_int (?n + 1) :: rat) \<le> of_int (2 ^ nat (bitlen ?n))" by (simp only: of_int_le_iff)
  moreover have "a < of_int (?n + 1)" by linarith
  ultimately have "a < of_int (2 ^ nat (bitlen ?n))" by linarith
  also have "\<dots> = 2 powi (bitlen ?n)" using b1 by (simp add: powi_nat)
  finally have B: "a < 2 powi (floor_log2 a + 1)" by (simp add: fl)
  from A B show ?thesis ..
qed

lemma floor_log2_lt1:
  assumes "0 < a" "a < 1"
  shows "2 powi (floor_log2 a) \<le> a \<and> a < 2 powi (floor_log2 a + 1)"
proof -
  let ?b = "1 / a"
  let ?c = "\<lceil>?b\<rceil>"
  let ?j = "bitlen (?c - 1)"
  from assms have b: "1 < ?b" by simp
  then have c: "0 < ?c - 1" by linarith
  from bitlen_bounds[OF c] have lo: "2 ^ nat (?j - 1) \<le> ?c - 1" and hi: "?c - 1 < 2 ^ nat ?j"
    by simp_all
  from c have j1: "1 \<le> ?j" by (simp add: bitlen_alt_def)
  have fl: "floor_log2 a = - ?j" using assms by (simp add: floor_log2_def)
  from hi have "?c \<le> 2 ^ nat ?j" by simp
  then have "(of_int ?c :: rat) \<le> of_int (2 ^ nat ?j)" by (simp only: of_int_le_iff)
  moreover have "?b \<le> of_int ?c" by (rule le_of_int_ceiling)
  ultimately have "?b \<le> of_int (2 ^ nat ?j)" by linarith
  then have "?b \<le> 2 ^ nat ?j" by simp
  then have "1 / 2 ^ nat ?j \<le> a" using assms(1)
    by (simp add: field_simps)
  moreover have "(2::rat) powi (- ?j) = 1 / 2 ^ nat ?j"
    using j1 by (simp add: power_int_minus powi_nat field_simps)
  ultimately have A: "2 powi (floor_log2 a) \<le> a" by (simp add: fl)
  from lo have "(of_int (2 ^ nat (?j - 1)) :: rat) \<le> of_int (?c - 1)" by (simp only: of_int_le_iff)
  moreover have "of_int (?c - 1) < ?b" by linarith
  ultimately have "(of_int (2 ^ nat (?j - 1)) :: rat) < ?b" by linarith
  then have "(2::rat) ^ nat (?j - 1) < ?b" by simp
  then have "a < 1 / 2 ^ nat (?j - 1)" using assms(1)
    by (simp add: field_simps)
  moreover have "(2::rat) powi (- ?j + 1) = 1 / 2 ^ nat (?j - 1)"
  proof -
    have "- ?j + 1 = - (?j - 1)" by simp
    then have "(2::rat) powi (- ?j + 1) = inverse (2 powi (?j - 1))"
      by (simp only: power_int_minus)
    also have "\<dots> = 1 / 2 ^ nat (?j - 1)" using j1 by (simp add: powi_nat field_simps)
    finally show ?thesis .
  qed
  ultimately have B: "a < 2 powi (floor_log2 a + 1)" by (simp add: fl)
  from A B show ?thesis ..
qed

lemma floor_log2_bounds:
  "0 < a \<Longrightarrow> 2 powi (floor_log2 a) \<le> a \<and> a < 2 powi (floor_log2 a + 1)"
  using floor_log2_ge1[of a] floor_log2_lt1[of a] by (cases "1 \<le> a") auto

lemma pow2_less_imp_less: "(2::rat) powi m < 2 powi n \<Longrightarrow> m < n"
proof (rule ccontr)
  assume lt: "(2::rat) powi m < 2 powi n" and "\<not> m < n"
  then have "n \<le> m" by simp
  then have "(2::rat) powi n \<le> 2 powi m" by (rule power_int_increasing) simp
  with lt show False by simp
qed

lemma floor_log2_unique:
  assumes "0 < a" "2 powi e \<le> a" "a < 2 powi (e + 1)"
  shows "floor_log2 a = e"
proof -
  let ?f = "floor_log2 a"
  from floor_log2_bounds[OF assms(1)] have lo: "2 powi ?f \<le> a" and hi: "a < 2 powi (?f + 1)"
    by simp_all
  have "(2::rat) powi e < 2 powi (?f + 1)" using assms(2) hi by linarith
  then have 1: "e < ?f + 1" by (rule pow2_less_imp_less)
  have "(2::rat) powi ?f < 2 powi (e + 1)" using lo assms(3) by linarith
  then have 2: "?f < e + 1" by (rule pow2_less_imp_less)
  from 1 2 show ?thesis by linarith
qed

lemma round_half_even_of_int: "round_half_even (of_int z) = z"
  by (simp add: round_half_even_def)

lemma round_half_even_nonneg: "0 \<le> x \<Longrightarrow> 0 \<le> round_half_even x"
  by (auto simp: round_half_even_def Let_def)

lemma round_binary64_pos:
  assumes "0 < q" "2 powi e0 \<le> q" "q < 2 powi (e0 + 1)"
  shows "round_binary64 q =
     (if binary64_overflow \<le> of_int (round_half_even (q / 2 powi (max e0 (- 1022) - 52)))
                       * 2 powi (max e0 (- 1022) - 52)
      then PInf
      else Fin (of_int (round_half_even (q / 2 powi (max e0 (- 1022) - 52)))
                  * 2 powi (max e0 (- 1022) - 52)))"
proof -
  from assms(1) have "floor_log2 \<bar>q\<bar> = e0"
    using floor_log2_unique[of q e0] assms(2,3) by simp
  with assms(1) show ?thesis by (simp add: round_binary64_def Let_def)
qed

lemma round_binary64_uminus: "round_binary64 (- q) = (case round_binary64 q of
    Fin r \<Rightarrow> Fin (- r) | PInf \<Rightarrow> NInf | NInf \<Rightarrow> PInf | NaN \<Rightarrow> NaN)"
  by (simp add: round_binary64_def Let_def)

lemma round_binary64_nonneg:
  assumes "0 \<le> q"
  shows "number_less_eq (Fin 0) (round_binary64 q)"
proof (cases "q = 0")
  case True
  then show ?thesis by (simp add: round_binary64_def number_less_eq_def number_strict_equals_def)
next
  case False
  with assms have q: "0 < q" by simp
  let ?u = "(2::rat) powi (max (floor_log2 \<bar>q\<bar>) (- 1022) - 52)"
  have u: "0 < ?u" by simp
  with q have "0 \<le> \<bar>q\<bar> / ?u" by simp
  then have "0 \<le> round_half_even (\<bar>q\<bar> / ?u)" by (rule round_half_even_nonneg)
  then have "0 \<le> (of_int (round_half_even (\<bar>q\<bar> / ?u)) :: rat) * ?u" by simp
  with q show ?thesis
    by (simp add: round_binary64_def Let_def number_less_eq_def number_strict_equals_def
        less_le)
qed

lemma round_binary64_exact_pos:
  assumes a: "a = of_int m * 2 powi k" and m: "0 < m" "m < 2 ^ 53" and k: "- 1074 \<le> k"
    and r: "a < binary64_overflow"
  shows "round_binary64 a = Fin a"
proof -
  from a m have pos: "0 < a" by simp
  define f where "f = floor_log2 a"
  define e where "e = max f (- 1022)"
  from floor_log2_bounds[OF pos] have lo: "2 powi f \<le> a" by (simp add: f_def)
  have ke: "e - 52 \<le> k"
  proof (cases "f \<le> - 1022")
    case True
    with k show ?thesis by (simp add: e_def)
  next
    case False
    have "(of_int m :: rat) < of_int (2 ^ 53)" using m(2) by (simp only: of_int_less_iff)
    then have "(of_int m :: rat) < 2 powi 53" by simp
    then have "of_int m * 2 powi k < 2 powi 53 * (2::rat) powi k"
      by (simp add: mult_strict_right_mono)
    also have "\<dots> = 2 powi (53 + k)" by (simp add: power_int_add)
    finally have "(2::rat) powi f < 2 powi (53 + k)" using lo a by simp
    then have "f < 53 + k" by (rule pow2_less_imp_less)
    with False show ?thesis by (simp add: e_def)
  qed
  define d where "d = nat (k - (e - 52))"
  from ke have kd: "k = (e - 52) + int d" by (simp add: d_def)
  have pk: "(2::rat) powi k = 2 powi (e - 52) * 2 ^ d"
    by (subst kd) (simp add: power_int_add)
  have quot: "a / 2 powi (e - 52) = of_int (m * 2 ^ d)"
    by (simp add: a pk)
  have prod: "(of_int (m * 2 ^ d) :: rat) * 2 powi (e - 52) = a"
    by (simp add: a pk)
  have "round_binary64 a =
     (if binary64_overflow \<le> of_int (round_half_even (a / 2 powi (e - 52))) * 2 powi (e - 52)
      then PInf
      else Fin (of_int (round_half_even (a / 2 powi (e - 52))) * 2 powi (e - 52)))"
    using pos by (simp add: round_binary64_def Let_def e_def f_def)
  also have "\<dots> = Fin a"
    using r by (simp only: quot round_half_even_of_int prod) simp
  finally show ?thesis .
qed

lemma round_binary64_exact:
  assumes a: "a = of_int m * 2 powi k" and m: "\<bar>m\<bar> < 2 ^ 53" and k: "- 1074 \<le> k"
    and r: "\<bar>a\<bar> < binary64_overflow"
  shows "round_binary64 a = Fin a"
proof -
  consider "m = 0" | "0 < m" | "m < 0" by linarith
  then show ?thesis
  proof cases
    case 1
    with a show ?thesis by (simp add: round_binary64_def)
  next
    case 2
    with a have "0 < a" by simp
    with round_binary64_exact_pos[OF a 2 _ k] m r show ?thesis by simp
  next
    case 3
    with a have neg: "a < 0" by (simp add: mult_neg_pos)
    have "- a = of_int (- m) * 2 powi k" using a by simp
    from round_binary64_exact_pos[OF this _ _ k] 3 m r neg
    have "round_binary64 (- a) = Fin (- a)" by simp
    then show ?thesis using round_binary64_uminus[of "- a"] by simp
  qed
qed


lemma round_binary64_int:
  "\<bar>z\<bar> < 2 ^ 53 \<Longrightarrow> round_binary64 (of_int z) = Fin (of_int z)"
proof -
  assume z: "\<bar>z\<bar> < 2 ^ 53"
  have "\<bar>of_int z :: rat\<bar> = of_int \<bar>z\<bar>" by simp
  also have "\<dots> < of_int (2 ^ 53)" using z by (simp only: of_int_less_iff)
  also have "\<dots> < binary64_overflow" by (simp add: binary64_overflow_def)
  finally have r: "\<bar>of_int z :: rat\<bar> < binary64_overflow" .
  show ?thesis by (rule round_binary64_exact[of _ z 0, OF _ z _ r]) simp_all
qed

lemma round_binary64_0: "round_binary64 0 = Fin 0"
  by (simp add: round_binary64_def)

lemma round_binary64_parsed:
  "round_binary64 1 = Fin 1" "round_binary64 2 = Fin 2" "round_binary64 3 = Fin 3"
  "round_binary64 7 = Fin 7" "round_binary64 100 = Fin 100" "round_binary64 (- 3) = Fin (- 3)"
  "round_binary64 (3 / 2) = Fin (3 / 2)"
proof -
  show "round_binary64 1 = Fin 1" "round_binary64 2 = Fin 2" "round_binary64 3 = Fin 3"
    "round_binary64 7 = Fin 7" "round_binary64 100 = Fin 100" "round_binary64 (- 3) = Fin (- 3)"
    using round_binary64_int[of 1] round_binary64_int[of 2] round_binary64_int[of 3]
      round_binary64_int[of 7] round_binary64_int[of 100] round_binary64_int[of "- 3"]
    by simp_all
  show "round_binary64 (3 / 2) = Fin (3 / 2)"
    by (rule round_binary64_exact[of _ 3 "- 1"]) (simp_all add: binary64_overflow_def)
qed

subsection \<open>\<^verbatim>\<open>loopWhile\<close>\<close>

lemma number_strict_equals_3 [simp]: "number_strict_equals n (Fin 3) = (n = Fin 3)"
  by (auto simp: number_strict_equals_def)

lemma loopWhile_loop_stop: "loopWhile_loop (Fin 3) w = Some w"
  by (subst loopWhile_loop.simps) simp

lemma loopWhile_loop_step:
  "numero \<noteq> Fin 3 \<Longrightarrow>
   loopWhile_loop numero w =
   loopWhile_loop (parseInt (shd (input w)))
     (w\<lparr>input := stl (input w),
        trace := trace w @ [Log [JStr msg_voce_digitou, JNum numero], Prompt msg_digite_outro_numero]\<rparr>)"
  by (subst loopWhile_loop.simps) (simp add: prompt_def console_log_def)

lemma loopWhile_loop_run:
  "xs \<noteq> [] \<Longrightarrow> \<forall>x\<in>set (butlast xs). parseInt x \<noteq> Fin 3 \<Longrightarrow> parseInt (last xs) = Fin 3 \<Longrightarrow>
   input w = tl xs @- rest \<Longrightarrow>
   loopWhile_loop (parseInt (hd xs)) w =
   Some (w\<lparr>input := rest, trace := trace w @ concat (map digitou_round (butlast xs))\<rparr>)"
proof (induction xs arbitrary: w)
  case Nil
  then show ?case by simp
next
  case (Cons x ys)
  show ?case
  proof (cases ys)
    case Nil
    with Cons.prems show ?thesis by (simp add: loopWhile_loop_stop)
  next
    case (Cons y zs)
    let ?w = "w\<lparr>input := stl (input w),
        trace := trace w @ [Log [JStr msg_voce_digitou, JNum (parseInt x)], Prompt msg_digite_outro_numero]\<rparr>"
    from Cons Cons.prems have nx: "parseInt x \<noteq> Fin 3" by simp
    from Cons Cons.prems have shd: "shd (input w) = hd ys" and inp: "input ?w = tl ys @- rest" by simp_all
    have "loopWhile_loop (parseInt (hd ys)) ?w =
      Some (?w\<lparr>input := rest, trace := trace ?w @ concat (map digitou_round (butlast ys))\<rparr>)"
      using Cons Cons.prems inp by (intro Cons.IH) simp_all
    then show ?thesis using nx shd Cons
      by (simp add: loopWhile_loop_step) (simp add: digitou_round_def)
  qed
qed

lemma loopWhile_loop_reaches:
  "parseInt (input w !! n) = Fin 3 \<Longrightarrow> loopWhile_loop numero w \<noteq> None"
proof (induction n arbitrary: numero w)
  case 0
  show ?case
  proof (cases "numero = Fin 3")
    case True then show ?thesis by (simp add: loopWhile_loop_stop)
  next
    case False
    with 0 show ?thesis by (simp add: loopWhile_loop_step loopWhile_loop_stop)
  qed
next
  case (Suc n)
  show ?case
  proof (cases "numero = Fin 3")
    case True then show ?thesis by (simp add: loopWhile_loop_stop)
  next
    case False
    with Suc.prems Suc.IH show ?thesis by (simp add: loopWhile_loop_step)
  qed
qed

lemma loopWhile_loop_returns:
  assumes "loopWhile_loop numero w = Some w'"
  shows "numero = Fin 3 \<or> (\<exists>n. parseInt (input w !! n) = Fin 3)"
proof (rule loopWhile_loop.raw_induct
    [where P = "\<lambda>numero w w'. numero = Fin 3 \<or> (\<exists>n. parseInt (input w !! n) = Fin 3)",
     OF _ assms])
  fix loop :: "number \<Rightarrow> world \<Rightarrow> world option" and a :: number and b c :: world
  assume IH: "\<And>x y z. loop x y = Some z \<Longrightarrow> x = Fin 3 \<or> (\<exists>n. parseInt (input y !! n) = Fin 3)"
  assume body: "(if \<not> number_strict_equals a (Fin 3)
       then let w1 = console_log [JStr msg_voce_digitou, JNum a] b
            in case prompt msg_digite_outro_numero w1 of (r, w2) \<Rightarrow> loop (parseInt r) w2
       else Some b) = Some c"
  show "a = Fin 3 \<or> (\<exists>n. parseInt (input b !! n) = Fin 3)"
  proof (cases "a = Fin 3")
    case True then show ?thesis by simp
  next
    case False
    let ?b = "b\<lparr>input := stl (input b),
        trace := trace b @ [Log [JStr msg_voce_digitou, JNum a], Prompt msg_digite_outro_numero]\<rparr>"
    from False body have "loop (parseInt (shd (input b))) ?b = Some c"
      by (simp add: prompt_def console_log_def)
    from IH[OF this] show ?thesis
    proof
      assume "parseInt (shd (input b)) = Fin 3"
      then have "parseInt (input b !! 0) = Fin 3" by simp
      then show ?thesis by blast
    next
      assume "\<exists>n. parseInt (input ?b !! n) = Fin 3"
      then obtain n where "parseInt (input b !! Suc n) = Fin 3" by auto
      then show ?thesis by blast
    qed
  qed
qed


lemma loopWhile_Some_iff:
  "(\<exists>w'. loopWhile w = Some w') \<longleftrightarrow> (\<exists>n. parseInt (input w !! n) = Fin 3)"
proof
  assume "\<exists>w'. loopWhile w = Some w'"
  then obtain w2 where
    "loopWhile_loop (parseInt (shd (input w)))
       (w\<lparr>input := stl (input w), trace := trace w @ [Prompt msg_digite_um_numero]\<rparr>) = Some w2"
    by (auto simp: loopWhile_def prompt_def split: option.splits)
  from loopWhile_loop_returns[OF this] show "\<exists>n. parseInt (input w !! n) = Fin 3"
  proof
    assume "parseInt (shd (input w)) = Fin 3"
    then have "parseInt (input w !! 0) = Fin 3" by simp
    then show ?thesis by blast
  next
    assume "\<exists>n. parseInt (input (w\<lparr>input := stl (input w), trace := trace w @ [Prompt msg_digite_um_numero]\<rparr>) !! n) = Fin 3"
    then obtain n where "parseInt (input w !! Suc n) = Fin 3" by auto
    then show ?thesis by blast
  qed
next
  assume "\<exists>n. parseInt (input w !! n) = Fin 3"
  then obtain n where n: "parseInt (input w !! n) = Fin 3" ..
  show "\<exists>w'. loopWhile w = Some w'"
  proof (cases n)
    case 0
    with n show ?thesis by (simp add: loopWhile_def prompt_def loopWhile_loop_stop)
  next
    case (Suc m)
    with n have "loopWhile_loop (parseInt (shd (input w)))
       (w\<lparr>input := stl (input w), trace := trace w @ [Prompt msg_digite_um_numero]\<rparr>) \<noteq> None"
      by (intro loopWhile_loop_reaches[of _ m]) simp
    then show ?thesis by (auto simp: loopWhile_def prompt_def)
  qed
qed

lemma loopWhile_None_iff:
  "loopWhile w = None \<longleftrightarrow> (\<forall>n. parseInt (input w !! n) \<noteq> Fin 3)"
  using loopWhile_Some_iff[of w] by (cases "loopWhile w") auto

lemma loopWhile_run:
  assumes "xs \<noteq> []" and "\<forall>x\<in>set (butlast xs). parseInt x \<noteq> Fin 3"
    and "parseInt (last xs) = Fin 3" and "input w = xs @- rest"
  shows "loopWhile w =
     Some (w\<lparr>input := rest,
       trace := trace w @ Prompt msg_digite_um_numero # concat (map digitou_round (butlast xs))
         @ [Log [JStr msg_encerrando]]\<rparr>)"
proof -
  let ?w1 = "w\<lparr>input := stl (input w), trace := trace w @ [Prompt msg_digite_um_numero]\<rparr>"
  from assms(1,4) have hd: "shd (input w) = hd xs" and tl: "input ?w1 = tl xs @- rest"
    by simp_all
  have "loopWhile_loop (parseInt (hd xs)) ?w1 =
     Some (?w1\<lparr>input := rest, trace := trace ?w1 @ concat (map digitou_round (butlast xs))\<rparr>)"
    using assms(1-3) tl by (rule loopWhile_loop_run)
  then show ?thesis by (simp add: loopWhile_def prompt_def hd console_log_def)
qed

lemma digitou_values_rounds:
  "digitou_values (concat (map digitou_round ys) @ es) = map parseInt ys @ digitou_values es"
  by (induction ys) (simp_all add: digitou_values_def digitou_round_def List.map_filter_simps)

lemma digitou_values_run:
  "digitou_values (Prompt msg_digite_um_numero # concat (map digitou_round ys)
     @ [Log [JStr msg_encerrando]]) = map parseInt ys"
proof -
  have "digitou_values (Prompt msg_digite_um_numero # concat (map digitou_round ys)
     @ [Log [JStr msg_encerrando]]) = digitou_values (concat (map digitou_round ys)
     @ [Log [JStr msg_encerrando]])"
    by (simp add: digitou_values_def List.map_filter_simps)
  also have "\<dots> = map parseInt ys @ digitou_values [Log [JStr msg_encerrando]]"
    by (rule digitou_values_rounds)
  also have "\<dots> = map parseInt ys"
    by (simp add: digitou_values_def List.map_filter_simps)
  finally show ?thesis .
qed

lemma parseInt_examples:
  "parseInt (Str (js ''3'')) = Fin 3" "parseInt (Str (js ''3.9'')) = Fin 3"
  "parseInt (Str (js ''3abc'')) = Fin 3" "parseInt (Str (js ''abc'')) = NaN"
  "parseInt Null = NaN" "parseInt (Str (js ''1'')) = Fin 1"
  by (simp_all add: parseInt_def js_def TrimString_start_def is_white_space_def
      is_radix_digit_def digit_value_def digits_value_def round_binary64_parsed)

text \<open>
  C2. When the answers read by \<^verbatim>\<open>loopWhile\<close> are \<open>xs\<close>, the last of them being the first
  that parses to 3, the loop logs one labelled line for each answer but the last, in
  order, each carrying the parsed value of its answer: \<open>length xs - 1\<close> lines. When the
  first answer parses to 3 there is no such line before the closing message.
\<close>

theorem loopWhile_digitou_lines:
  assumes "xs \<noteq> []" and "\<forall>x\<in>set (butlast xs). parseInt x \<noteq> Fin 3"
    and "parseInt (last xs) = Fin 3" and "input w = xs @- rest"
  shows "loopWhile w =
       Some (w\<lparr>input := rest,
         trace := trace w @ Prompt msg_digite_um_numero # concat (map digitou_round (butlast xs))
           @ [Log [JStr msg_encerrando]]\<rparr>)
     \<and> digitou_values (Prompt msg_digite_um_numero # concat (map digitou_round (butlast xs))
           @ [Log [JStr msg_encerrando]]) = map parseInt (butlast xs)
     \<and> length (digitou_values (Prompt msg_digite_um_numero
           # concat (map digitou_round (butlast xs)) @ [Log [JStr msg_encerrando]]))
         = length xs - 1
     \<and> (length xs = 1 \<longrightarrow>
          loopWhile w = Some (w\<lparr>input := rest,
            trace := trace w @ [Prompt msg_digite_um_numero, Log [JStr msg_encerrando]]\<rparr>))"
proof -
  have run: "loopWhile w =
       Some (w\<lparr>input := rest,
         trace := trace w @ Prompt msg_digite_um_numero # concat (map digitou_round (butlast xs))
           @ [Log [JStr msg_encerrando]]\<rparr>)"
    using assms by (rule loopWhile_run)
  have one: "butlast xs = []" if "length xs = 1"
    using that by (cases xs) simp_all
  show ?thesis using run one by (simp add: digitou_values_run)
qed

theorem loopWhile_digitou_lines_witness:
  "loopWhile (init_world ([Str (js ''1''), Str (js ''abc''), Str (js ''3'')] @- sconst Null)) =
     Some \<lparr>input = sconst Null,
       trace = [Prompt msg_digite_um_numero,
                Log [JStr msg_voce_digitou, JNum (Fin 1)], Prompt msg_digite_outro_numero,
                Log [JStr msg_voce_digitou, JNum NaN], Prompt msg_digite_outro_numero,
                Log [JStr msg_encerrando]]\<rparr>
   \<and> loopWhile (init_world ([Str (js ''3'')] @- sconst Null)) =
     Some \<lparr>input = sconst Null,
       trace = [Prompt msg_digite_um_numero, Log [JStr msg_encerrando]]\<rparr>"
  using loopWhile_digitou_lines
      [of "[Str (js ''1''), Str (js ''abc''), Str (js ''3'')]"
          "init_world ([Str (js ''1''), Str (js ''abc''), Str (js ''3'')] @- sconst Null)"
          "sconst Null"]
    loopWhile_digitou_lines
      [of "[Str (js ''3'')]" "init_world ([Str (js ''3'')] @- sconst Null)" "sconst Null"]
  by (simp add: parseInt_examples init_world_def digitou_round_def)

text \<open>
  C3. \<^verbatim>\<open>loopWhile\<close> returns if and only if some answer parses to 3. On an input in which
  no answer parses to 3, for instance one whose answers all parse to NaN, it never
  returns.
\<close>

theorem loopWhile_terminates_iff:
  "((\<exists>w'. loopWhile w = Some w') \<longleftrightarrow> (\<exists>n. parseInt (input w !! n) = Fin 3))
   \<and> ((\<forall>n. parseInt (input w !! n) \<noteq> Fin 3) \<longrightarrow> loopWhile w = None)
   \<and> ((\<forall>n. parseInt (input w !! n) = NaN) \<longrightarrow> loopWhile w = None)"
proof -
  have "loopWhile w = None" if "\<forall>n. parseInt (input w !! n) = NaN"
    using that by (simp add: loopWhile_None_iff)
  then show ?thesis by (simp add: loopWhile_Some_iff loopWhile_None_iff)
qed

theorem loopWhile_terminates_iff_witness:
  "loopWhile (init_world (sconst (Str (js ''abc'')))) = None
   \<and> loopWhile (init_world (Str (js ''abc'') ## sconst (Str (js ''3'')))) \<noteq> None"
proof -
  have a: "\<forall>n. parseInt (input (init_world (sconst (Str (js ''abc'')))) !! n) = NaN"
    by (simp add: init_world_def parseInt_examples)
  have b: "\<exists>n. parseInt (input (init_world (Str (js ''abc'') ## sconst (Str (js ''3'')))) !! n) = Fin 3"
    by (rule exI[of _ 1]) (simp add: init_world_def parseInt_examples)
  show ?thesis
    using a b loopWhile_terminates_iff[of "init_world (sconst (Str (js ''abc'')))"]
      loopWhile_terminates_iff[of "init_world (Str (js ''abc'') ## sconst (Str (js ''3'')))"]
    by auto
qed

text \<open>
  C9. The loop of \<^verbatim>\<open>loopWhile\<close> stops on the parsed value: an answer \<open>s\<close> whose integer
  parse is 3, read after answers that do not parse to 3, ends the run exactly as the
  answer \<^verbatim>\<open>3\<close> would in its place, and no line is logged for \<open>s\<close>.
\<close>

theorem loopWhile_stops_on_parsed_3:
  assumes "parseInt (Str s) = Fin 3" and "\<forall>x\<in>set ys. parseInt x \<noteq> Fin 3"
    and "input w = ys @- Str s ## rest"
  shows "loopWhile w = loopWhile (w\<lparr>input := ys @- Str (js ''3'') ## rest\<rparr>)
     \<and> loopWhile w =
         Some (w\<lparr>input := rest,
           trace := trace w @ Prompt msg_digite_um_numero # concat (map digitou_round ys)
             @ [Log [JStr msg_encerrando]]\<rparr>)
     \<and> digitou_values (Prompt msg_digite_um_numero # concat (map digitou_round ys)
           @ [Log [JStr msg_encerrando]]) = map parseInt ys"
proof -
  have a: "loopWhile w =
         Some (w\<lparr>input := rest,
           trace := trace w @ Prompt msg_digite_um_numero # concat (map digitou_round ys)
             @ [Log [JStr msg_encerrando]]\<rparr>)"
    using loopWhile_run[of "ys @ [Str s]" w rest] assms by simp
  have b: "loopWhile (w\<lparr>input := ys @- Str (js ''3'') ## rest\<rparr>) =
         Some (w\<lparr>input := rest,
           trace := trace w @ Prompt msg_digite_um_numero # concat (map digitou_round ys)
             @ [Log [JStr msg_encerrando]]\<rparr>)"
    using loopWhile_run[of "ys @ [Str (js ''3'')]" "w\<lparr>input := ys @- Str (js ''3'') ## rest\<rparr>" rest]
      assms(2) by (simp add: parseInt_examples)
  show ?thesis using a b by (simp add: digitou_values_run)
qed

theorem loopWhile_stops_on_parsed_3_witness:
  "parseInt (Str (js ''3.9'')) = Fin 3 \<and> parseInt (Str (js ''3abc'')) = Fin 3
   \<and> loopWhile (init_world ([Str (js ''7'')] @- Str (js ''3.9'') ## sconst Null)) =
       loopWhile (init_world ([Str (js ''7'')] @- Str (js ''3'') ## sconst Null))
   \<and> loopWhile (init_world ([Str (js ''7'')] @- Str (js ''3.9'') ## sconst Null)) =
       Some \<lparr>input = sconst Null,
         trace = [Prompt msg_digite_um_numero,
                  Log [JStr msg_voce_digitou, JNum (Fin 7)], Prompt msg_digite_outro_numero,
                  Log [JStr msg_encerrando]]\<rparr>
   \<and> loopWhile (init_world ([] @- Str (js ''3abc'') ## sconst Null)) =
       Some \<lparr>input = sconst Null,
         trace = [Prompt msg_digite_um_numero, Log [JStr msg_encerrando]]\<rparr>"
proof -
  have p7: "\<forall>x\<in>set [Str (js ''7'')]. parseInt x \<noteq> Fin 3"
    by (simp add: parseInt_def js_def TrimString_start_def is_white_space_def
      is_radix_digit_def digit_value_def digits_value_def round_binary64_parsed)
  have i1: "input (init_world ([Str (js ''7'')] @- Str (js ''3.9'') ## sconst Null))
      = [Str (js ''7'')] @- Str (js ''3.9'') ## sconst Null"
    by (simp add: init_world_def)
  have i2: "input (init_world ([] @- Str (js ''3abc'') ## sconst Null))
      = [] @- Str (js ''3abc'') ## sconst Null"
    by (simp add: init_world_def)
  note r1 = loopWhile_stops_on_parsed_3 [OF parseInt_examples(2) p7 i1]
  note r2 = loopWhile_stops_on_parsed_3 [OF parseInt_examples(3) _ i2]
  have a: "loopWhile (init_world ([Str (js ''7'')] @- Str (js ''3.9'') ## sconst Null)) =
       loopWhile (init_world ([Str (js ''7'')] @- Str (js ''3'') ## sconst Null))"
    using r1 [THEN conjunct1] by (simp add: init_world_def)
  have b: "loopWhile (init_world ([Str (js ''7'')] @- Str (js ''3.9'') ## sconst Null)) =
       Some \<lparr>input = sconst Null,
         trace = [Prompt msg_digite_um_numero,
                  Log [JStr msg_voce_digitou, JNum (Fin 7)], Prompt msg_digite_outro_numero,
                  Log [JStr msg_encerrando]]\<rparr>"
    using r1 [THEN conjunct2, THEN conjunct1]
    by (simp add: init_world_def digitou_round_def parseInt_def js_def TrimString_start_def
        is_white_space_def is_radix_digit_def digit_value_def digits_value_def
        round_binary64_parsed)
  have c: "loopWhile (init_world ([] @- Str (js ''3abc'') ## sconst Null)) =
       Some \<lparr>input = sconst Null,
         trace = [Prompt msg_digite_um_numero, Log [JStr msg_encerrando]]\<rparr>"
    using r2 [THEN conjunct2, THEN conjunct1] by (simp add: init_world_def)
  from a b c show ?thesis by (simp only: parseInt_examples simp_thms)
qed

subsection \<open>\<^verbatim>\<open>validaSenha\<close>\<close>

lemma string_strict_equals_iff [simp]: "string_strict_equals r t = (r = Str t)"
  by (cases r) auto

lemma validaSenha_body_eq:
  "validaSenha_body t a w =
     (shd (input w) = Str senhaCorreta, t + 1, (shd (input w) = Str senhaCorreta \<or> a),
      snd (prompt msg_digite_a_senha w))"
  by (simp add: validaSenha_body_def prompt_def)

lemma validaSenha_loop_match:
  "shd (input w) = Str senhaCorreta \<Longrightarrow>
   validaSenha_loop t a w = (Suc t, True, snd (prompt msg_digite_a_senha w))"
  by (subst validaSenha_loop.simps) (simp add: validaSenha_body_eq)

lemma validaSenha_loop_retry:
  "shd (input w) \<noteq> Str senhaCorreta \<Longrightarrow> Suc t < 3 \<Longrightarrow>
   validaSenha_loop t a w = validaSenha_loop (Suc t) a (snd (prompt msg_digite_a_senha w))"
  by (subst validaSenha_loop.simps) (simp add: validaSenha_body_eq)

lemma validaSenha_loop_last:
  "shd (input w) \<noteq> Str senhaCorreta \<Longrightarrow> \<not> Suc t < 3 \<Longrightarrow>
   validaSenha_loop t a w = (Suc t, a, snd (prompt msg_digite_a_senha w))"
  by (subst validaSenha_loop.simps) (simp add: validaSenha_body_eq)

lemma validaSenha_loop_cases:
  "validaSenha_loop 0 False w =
     (if input w !! 0 = Str senhaCorreta then (1, True, asked 1 w)
      else if input w !! 1 = Str senhaCorreta then (2, True, asked 2 w)
      else (3, input w !! 2 = Str senhaCorreta, asked 3 w))"
proof -
  let ?w1 = "snd (prompt msg_digite_a_senha w)"
  let ?w2 = "snd (prompt msg_digite_a_senha ?w1)"
  let ?w3 = "snd (prompt msg_digite_a_senha ?w2)"
  have w1: "?w1 = asked 1 w" by (simp add: prompt_def asked_def)
  have w2: "?w2 = asked 2 w" by (simp add: prompt_def asked_def numeral_2_eq_2)
  have w3: "?w3 = asked 3 w" by (simp add: prompt_def asked_def numeral_3_eq_3)
  have i1: "shd (input ?w1) = input w !! 1" by (simp add: prompt_def)
  have i2: "shd (input ?w2) = input w !! 2" by (simp add: prompt_def numeral_2_eq_2)
  show ?thesis
  proof (cases "input w !! 0 = Str senhaCorreta")
    case True
    then show ?thesis using validaSenha_loop_match[of w 0 False] w1 by simp
  next
    case m0: False
    then have s1: "validaSenha_loop 0 False w = validaSenha_loop (Suc 0) False ?w1"
      using validaSenha_loop_retry[of w 0 False] by simp
    show ?thesis
    proof (cases "input w !! 1 = Str senhaCorreta")
      case True
      then show ?thesis using m0 s1 validaSenha_loop_match[of ?w1 "Suc 0" False] i1 w2 by simp
    next
      case m1: False
      then have s2: "validaSenha_loop (Suc 0) False ?w1 = validaSenha_loop (Suc (Suc 0)) False ?w2"
        using validaSenha_loop_retry[of ?w1 "Suc 0" False] i1 by simp
      show ?thesis
      proof (cases "input w !! 2 = Str senhaCorreta")
        case True
        then show ?thesis using m0 m1 s1 s2 validaSenha_loop_match[of ?w2 "Suc (Suc 0)" False] i2 w3 by simp
      next
        case False
        then show ?thesis using m0 m1 s1 s2 validaSenha_loop_last[of ?w2 "Suc (Suc 0)" False] i2 w3 by simp
      qed
    qed
  qed
qed

lemma in_stake3: "(x \<in> set (stake 3 s)) = (s !! 0 = x \<or> s !! 1 = x \<or> s !! 2 = x)"
  by (auto simp: numeral_3_eq_3 numeral_2_eq_2)

lemma validaSenha_eq:
  "validaSenha w =
     w\<lparr>input := sdrop (senha_dialogs (input w)) (input w),
       trace := trace w @ replicate (senha_dialogs (input w)) (Prompt msg_digite_a_senha)
         @ [Log [JStr (if Str senhaCorreta \<in> set (stake 3 (input w))
                       then msg_acesso_concedido else msg_senha_bloqueada)]]\<rparr>"
  by (simp add: validaSenha_def validaSenha_loop_cases asked_def console_log_def senha_dialogs_def
      in_stake3)

text \<open>
  C1. \<^verbatim>\<open>validaSenha\<close> leaves its loop with \<open>acesso\<close> true, and logs the access-granted
  message, if and only if one of the first three answers is the string \<^verbatim>\<open>123456\<close>. It
  asks between one and three times. A match on the third attempt grants access. When
  none of the three answers is the secret it has asked three times, \<open>acesso\<close> is false
  and it logs the blocked message.
\<close>

theorem validaSenha_granted_iff:
  "(validaSenha_acesso w \<longleftrightarrow> Str senhaCorreta \<in> set (stake 3 (input w)))
   \<and> 1 \<le> validaSenha_tentativas w \<and> validaSenha_tentativas w \<le> 3
   \<and> trace (validaSenha w) =
       trace w @ replicate (validaSenha_tentativas w) (Prompt msg_digite_a_senha)
         @ [Log [JStr (if Str senhaCorreta \<in> set (stake 3 (input w))
                       then msg_acesso_concedido else msg_senha_bloqueada)]]
   \<and> (input w !! 2 = Str senhaCorreta \<longrightarrow> validaSenha_acesso w)
   \<and> (Str senhaCorreta \<notin> set (stake 3 (input w)) \<longrightarrow>
        \<not> validaSenha_acesso w \<and> validaSenha_tentativas w = 3
        \<and> validaSenha w = w\<lparr>input := sdrop 3 (input w),
             trace := trace w @ replicate 3 (Prompt msg_digite_a_senha)
               @ [Log [JStr msg_senha_bloqueada]]\<rparr>)"
  by (simp add: validaSenha_acesso_def validaSenha_tentativas_def validaSenha_def in_stake3
      validaSenha_loop_cases asked_def console_log_def del: validaSenha_loop.simps)

theorem validaSenha_granted_iff_witness:
  "validaSenha_acesso
     (init_world (Str (js ''a'') ## Str (js '''') ## Str (js ''123456'') ## sconst Null))
   \<and> Str senhaCorreta \<notin> set (stake 3 (sconst (Str (js ''12345''))))
   \<and> \<not> validaSenha_acesso (init_world (sconst (Str (js ''12345''))))
   \<and> validaSenha (init_world (sconst (Str (js ''12345'')))) =
       \<lparr>input = sconst (Str (js ''12345'')),
        trace = [Prompt msg_digite_a_senha, Prompt msg_digite_a_senha, Prompt msg_digite_a_senha,
                 Log [JStr msg_senha_bloqueada]]\<rparr>"
  using validaSenha_granted_iff
      [of "init_world (Str (js ''a'') ## Str (js '''') ## Str (js ''123456'') ## sconst Null)"]
    validaSenha_granted_iff [of "init_world (sconst (Str (js ''12345'')))"]
  by (simp add: init_world_def senhaCorreta_def js_def numeral_2_eq_2 numeral_3_eq_3)

text \<open>
  C10. \<^verbatim>\<open>validaSenha\<close> compares each answer with the secret by strict equality. When
  the answer about to be read is anything but the string \<^verbatim>\<open>123456\<close> itself (the null of a
  dismissed dialog, the empty string, the secret with spaces around it), the comparison
  is false; the pass through the body opens one dialog, does not leave through
  \<^verbatim>\<open>break\<close>, keeps \<open>acesso\<close> and adds exactly one to \<open>tentativas\<close>; and the loop goes
  on from there, asking again below three attempts and stopping at three. For the gate
  as a whole, a failed first answer is counted: the gate ends with two attempts if the
  second answer is the secret and three otherwise, it has opened as many dialogs as it
  counted attempts, and three failed answers give the blocked message. No branch fails.
\<close>

theorem validaSenha_rejects:
  assumes "shd (input w) \<noteq> Str senhaCorreta"
  shows "\<not> string_strict_equals (shd (input w)) senhaCorreta
     \<and> validaSenha_body tentativas acesso w =
         (False, tentativas + 1, acesso,
          w\<lparr>input := stl (input w), trace := trace w @ [Prompt msg_digite_a_senha]\<rparr>)
     \<and> validaSenha_loop tentativas acesso w =
         (if tentativas + 1 < 3
          then validaSenha_loop (tentativas + 1) acesso
                 (w\<lparr>input := stl (input w), trace := trace w @ [Prompt msg_digite_a_senha]\<rparr>)
          else (tentativas + 1, acesso,
                w\<lparr>input := stl (input w), trace := trace w @ [Prompt msg_digite_a_senha]\<rparr>))
     \<and> validaSenha_tentativas w = (if input w !! 1 = Str senhaCorreta then 2 else 3)
     \<and> validaSenha_acesso w =
         (input w !! 1 = Str senhaCorreta \<or> input w !! 2 = Str senhaCorreta)
     \<and> trace (validaSenha w) =
         trace w @ replicate (validaSenha_tentativas w) (Prompt msg_digite_a_senha)
           @ [Log [JStr (if validaSenha_acesso w then msg_acesso_concedido
                         else msg_senha_bloqueada)]]
     \<and> (input w !! 1 \<noteq> Str senhaCorreta \<and> input w !! 2 \<noteq> Str senhaCorreta \<longrightarrow>
          validaSenha_tentativas w = 3
          \<and> validaSenha w =
              w\<lparr>input := sdrop 3 (input w),
                trace := trace w @ [Prompt msg_digite_a_senha, Prompt msg_digite_a_senha,
                                    Prompt msg_digite_a_senha, Log [JStr msg_senha_bloqueada]]\<rparr>)"
proof -
  let ?w1 = "w\<lparr>input := stl (input w), trace := trace w @ [Prompt msg_digite_a_senha]\<rparr>"
  have w1: "snd (prompt msg_digite_a_senha w) = ?w1" by (simp add: prompt_def)
  have a: "\<not> string_strict_equals (shd (input w)) senhaCorreta" using assms by simp
  have b: "validaSenha_body tentativas acesso w = (False, tentativas + 1, acesso, ?w1)"
    using assms by (simp add: validaSenha_body_eq w1)
  have c: "validaSenha_loop tentativas acesso w =
         (if tentativas + 1 < 3 then validaSenha_loop (tentativas + 1) acesso ?w1
          else (tentativas + 1, acesso, ?w1))"
    using validaSenha_loop_retry[OF assms, of tentativas acesso]
      validaSenha_loop_last[OF assms, of tentativas acesso]
    by (simp add: w1)
  from assms have first: "input w !! 0 \<noteq> Str senhaCorreta" by simp
  have d: "validaSenha_tentativas w = (if input w !! 1 = Str senhaCorreta then 2 else 3)"
    using first by (simp add: validaSenha_tentativas_def validaSenha_loop_cases)
  have e: "validaSenha_acesso w =
         (input w !! 1 = Str senhaCorreta \<or> input w !! 2 = Str senhaCorreta)"
    using first by (simp add: validaSenha_acesso_def validaSenha_loop_cases)
  have f: "trace (validaSenha w) =
         trace w @ replicate (validaSenha_tentativas w) (Prompt msg_digite_a_senha)
           @ [Log [JStr (if validaSenha_acesso w then msg_acesso_concedido
                         else msg_senha_bloqueada)]]"
    by (simp add: validaSenha_def validaSenha_tentativas_def validaSenha_acesso_def
        validaSenha_loop_cases asked_def console_log_def)
  have g: "validaSenha_tentativas w = 3
          \<and> validaSenha w =
              w\<lparr>input := sdrop 3 (input w),
                trace := trace w @ [Prompt msg_digite_a_senha, Prompt msg_digite_a_senha,
                                    Prompt msg_digite_a_senha, Log [JStr msg_senha_bloqueada]]\<rparr>"
    if "input w !! 1 \<noteq> Str senhaCorreta \<and> input w !! 2 \<noteq> Str senhaCorreta"
    using that first
    by (simp add: validaSenha_def validaSenha_tentativas_def validaSenha_loop_cases asked_def
        console_log_def numeral_3_eq_3)
  from a b c d e f g show ?thesis by blast
qed

theorem validaSenha_rejects_witness:
  "Null \<noteq> Str senhaCorreta \<and> Str [] \<noteq> Str senhaCorreta
   \<and> Str (js '' 123456 '') \<noteq> Str senhaCorreta
   \<and> validaSenha_body 0 False
        (init_world (Null ## Str [] ## Str (js '' 123456 '') ## sconst Null)) =
        (False, 1, False,
         \<lparr>input = Str [] ## Str (js '' 123456 '') ## sconst Null,
          trace = [Prompt msg_digite_a_senha]\<rparr>)
   \<and> validaSenha_tentativas
        (init_world (Null ## Str [] ## Str (js '' 123456 '') ## sconst Null)) = 3
   \<and> \<not> validaSenha_acesso
        (init_world (Null ## Str [] ## Str (js '' 123456 '') ## sconst Null))
   \<and> validaSenha (init_world (Null ## Str [] ## Str (js '' 123456 '') ## sconst Null)) =
        \<lparr>input = sconst Null,
         trace = [Prompt msg_digite_a_senha, Prompt msg_digite_a_senha,
                  Prompt msg_digite_a_senha, Log [JStr msg_senha_bloqueada]]\<rparr>"
proof -
  let ?w = "init_world (Null ## Str [] ## Str (js '' 123456 '') ## sconst Null)"
  have n: "Null \<noteq> Str senhaCorreta" "Str [] \<noteq> Str senhaCorreta"
    "Str (js '' 123456 '') \<noteq> Str senhaCorreta"
    by (simp_all add: senhaCorreta_def js_def)
  have h: "shd (input ?w) \<noteq> Str senhaCorreta" by (simp add: init_world_def)
  have i: "input ?w !! 1 = Str []" "input ?w !! 2 = Str (js '' 123456 '')"
    by (simp_all add: init_world_def numeral_2_eq_2)
  note t = validaSenha_rejects [OF h, of 0 False]
  have b: "validaSenha_body 0 False ?w =
        (False, 1, False,
         \<lparr>input = Str [] ## Str (js '' 123456 '') ## sconst Null,
          trace = [Prompt msg_digite_a_senha]\<rparr>)"
    using t [THEN conjunct2, THEN conjunct1] by (simp add: init_world_def)
  have d: "validaSenha_tentativas ?w = 3"
    using t [THEN conjunct2, THEN conjunct2, THEN conjunct2, THEN conjunct1] n
    by (simp only: i if_False)
  have e: "\<not> validaSenha_acesso ?w"
    using t [THEN conjunct2, THEN conjunct2, THEN conjunct2, THEN conjunct2, THEN conjunct1] n
    by (simp only: i simp_thms)
  have g: "validaSenha ?w =
        \<lparr>input = sconst Null,
         trace = [Prompt msg_digite_a_senha, Prompt msg_digite_a_senha,
                  Prompt msg_digite_a_senha, Log [JStr msg_senha_bloqueada]]\<rparr>"
  proof -
    from n i have "input ?w !! 1 \<noteq> Str senhaCorreta \<and> input ?w !! 2 \<noteq> Str senhaCorreta"
      by (simp only: simp_thms)
    from t [THEN conjunct2, THEN conjunct2, THEN conjunct2, THEN conjunct2, THEN conjunct2,
        THEN conjunct2, THEN mp, OF this]
    show ?thesis by (simp add: init_world_def numeral_3_eq_3)
  qed
  from n b d e g show ?thesis by blast
qed


subsection \<open>The lists\<close>

lemma forEach_console_log:
  "forEach xs (\<lambda>numero. console_log [JNum numero]) w =
   w\<lparr>trace := trace w @ map (\<lambda>numero. Log [JNum numero]) xs\<rparr>"
  by (induction xs arbitrary: w) (simp_all add: console_log_def)

lemma solicitarCincoNumeros_loop_eq:
  "k + i = 5 \<Longrightarrow>
   solicitarCincoNumeros_loop i numeros w =
     (numeros @ map parseFloat (stake k (input w)),
      w\<lparr>input := sdrop k (input w),
        trace := trace w @ map (\<lambda>j. Prompt (msg_digite_o j)) [i..<5]\<rparr>)"
proof (induction k arbitrary: i numeros w)
  case 0
  then show ?case by (subst solicitarCincoNumeros_loop.simps) simp
next
  case (Suc k)
  from Suc.prems have i: "i < 5" and k: "k + Suc i = 5" by simp_all
  from i have upt: "[i..<5] = i # [Suc i..<5]" by (simp add: upt_conv_Cons)
  show ?case
    by (subst solicitarCincoNumeros_loop.simps)
       (simp add: i prompt_def Suc.IH[OF k] upt del: upt_Suc)
qed

lemma exibirListaFixa_eq:
  "exibirListaFixa w =
     w\<lparr>trace := trace w @ [Log [JStr msg_lista_fixa], Log [JNum (Fin 10)], Log [JNum (Fin 20)],
                            Log [JNum (Fin 30)], Log [JNum (Fin 40)]]\<rparr>"
  by (simp add: exibirListaFixa_def console_log_def)

lemma solicitarCincoNumeros_loop_0:
  "solicitarCincoNumeros_loop 0 [] w =
     (map parseFloat (stake 5 (input w)),
      w\<lparr>input := sdrop 5 (input w),
        trace := trace w @ map (\<lambda>j. Prompt (msg_digite_o j)) [0, 1, 2, 3, 4]\<rparr>)"
proof -
  have upt5: "[0..<5] = [0, 1, 2, 3, 4]" by (simp add: upt_rec)
  show ?thesis using solicitarCincoNumeros_loop_eq[of 5 0 "[]" w] by (simp add: upt5)
qed

lemma solicitarCincoNumeros_eq:
  "solicitarCincoNumeros w =
     w\<lparr>input := sdrop 5 (input w),
       trace := trace w
         @ [Prompt (msg_digite_o 0), Prompt (msg_digite_o 1), Prompt (msg_digite_o 2),
            Prompt (msg_digite_o 3), Prompt (msg_digite_o 4)]
         @ [Log [JStr msg_numeros_digitados]]
         @ map (\<lambda>numero. Log [JNum numero]) (map parseFloat (stake 5 (input w)))\<rparr>"
  by (simp add: solicitarCincoNumeros_def solicitarCincoNumeros_loop_0 forEach_console_log
      console_log_def)

text \<open>
  C4. \<^verbatim>\<open>solicitarCincoNumeros\<close> opens exactly five dialogs, labelled with the indices 1
  to 5. The array it collects is the \<^verbatim>\<open>parseFloat\<close> of the next five answers in the order
  of arrival and has length 5. After the dialogs it logs the header and then the
  collected values, one per line, in that order. The answers 1.5, 2, -3, 0, 100 give
  these five values.
\<close>

theorem solicitarCincoNumeros_collects:
  "solicitarCincoNumeros_numeros w = map parseFloat (stake 5 (input w))
   \<and> length (solicitarCincoNumeros_numeros w) = 5
   \<and> solicitarCincoNumeros w =
       w\<lparr>input := sdrop 5 (input w),
         trace := trace w
           @ [Prompt (msg_digite_o 0), Prompt (msg_digite_o 1), Prompt (msg_digite_o 2),
              Prompt (msg_digite_o 3), Prompt (msg_digite_o 4)]
           @ [Log [JStr msg_numeros_digitados]]
           @ map (\<lambda>numero. Log [JNum numero]) (solicitarCincoNumeros_numeros w)\<rparr>
   \<and> map msg_digite_o [0, 1, 2, 3, 4] =
       [js (''Digite o 1'' @ [CHR 0xBA] @ '' n'' @ [CHR 0xFA] @ ''mero:''),
        js (''Digite o 2'' @ [CHR 0xBA] @ '' n'' @ [CHR 0xFA] @ ''mero:''),
        js (''Digite o 3'' @ [CHR 0xBA] @ '' n'' @ [CHR 0xFA] @ ''mero:''),
        js (''Digite o 4'' @ [CHR 0xBA] @ '' n'' @ [CHR 0xFA] @ ''mero:''),
        js (''Digite o 5'' @ [CHR 0xBA] @ '' n'' @ [CHR 0xFA] @ ''mero:'')]
   \<and> map parseFloat
         [Str (js ''1.5''), Str (js ''2''), Str (js ''-3''), Str (js ''0''), Str (js ''100'')]
       = [Fin (3 / 2), Fin 2, Fin (- 3), Fin 0, Fin 100]"
proof -
  have a: "solicitarCincoNumeros_numeros w = map parseFloat (stake 5 (input w))"
    by (simp add: solicitarCincoNumeros_numeros_def solicitarCincoNumeros_loop_0)
  have c: "map msg_digite_o [0, 1, 2, 3, 4] =
       [js (''Digite o 1'' @ [CHR 0xBA] @ '' n'' @ [CHR 0xFA] @ ''mero:''),
        js (''Digite o 2'' @ [CHR 0xBA] @ '' n'' @ [CHR 0xFA] @ ''mero:''),
        js (''Digite o 3'' @ [CHR 0xBA] @ '' n'' @ [CHR 0xFA] @ ''mero:''),
        js (''Digite o 4'' @ [CHR 0xBA] @ '' n'' @ [CHR 0xFA] @ ''mero:''),
        js (''Digite o 5'' @ [CHR 0xBA] @ '' n'' @ [CHR 0xFA] @ ''mero:'')]"
    by (simp add: msg_digite_o_def js_def)
  have d: "map parseFloat
         [Str (js ''1.5''), Str (js ''2''), Str (js ''-3''), Str (js ''0''), Str (js ''100'')]
       = [Fin (3 / 2), Fin 2, Fin (- 3), Fin 0, Fin 100]"
    by (simp add: parseFloat_def js_def TrimString_start_def is_white_space_def
        is_decimal_digit_def digit_value_def digits_value_def exponent_part_def scale10_def
        round_binary64_parsed round_binary64_0)
  from a c d show ?thesis by (simp add: solicitarCincoNumeros_eq)
qed

text \<open>
  C5. \<^verbatim>\<open>exibirListaFixa\<close>, in any world, logs its header line and then 10, 20, 30 and 40,
  one per line; it reads nothing and does nothing else.
\<close>

theorem exibirListaFixa_emits:
  "exibirListaFixa w =
     w\<lparr>trace := trace w @ [Log [JStr msg_lista_fixa], Log [JNum (Fin 10)], Log [JNum (Fin 20)],
                            Log [JNum (Fin 30)], Log [JNum (Fin 40)]]\<rparr>"
  by (rule exibirListaFixa_eq)

subsection \<open>The functions\<close>

lemma round_binary64_small:
  "round_binary64 25 = Fin 25" "round_binary64 16 = Fin 16"
  "round_binary64 7 = Fin 7" "round_binary64 (- 7) = Fin (- 7)"
  using round_binary64_int[of 25] round_binary64_int[of 16] round_binary64_int[of 7]
    round_binary64_int[of "- 7"]
  by simp_all

lemma functions_values:
  "calcularQuadrado (Fin 5) = Fin 25" "Subtracao (Fin 10) (Fin 3) = Fin 7"
  by (simp_all add: calcularQuadrado_def Subtracao_def numeral_2_eq_2 round_binary64_small)

lemma round_half_even_divide:
  assumes d: "0 < d"
  shows "round_half_even (of_int n / of_int d) =
     (if 2 * (n mod d) < d then n div d
      else if d < 2 * (n mod d) then n div d + 1
      else if even (n div d) then n div d else n div d + 1)"
proof -
  have fl: "\<lfloor>(of_int n :: rat) / of_int d\<rfloor> = n div d" by (rule floor_divide_of_int_eq)
  have "of_int d * of_int (n div d) + of_int (n mod d) = (of_int n :: rat)"
    by (simp only: of_int_mult[symmetric] of_int_add[symmetric] mult_div_mod_eq)
  then have "(of_int n :: rat) / of_int d = of_int (n div d) + of_int (n mod d) / of_int d"
    using d by (simp add: field_simps)
  then have fr: "(of_int n :: rat) / of_int d - of_int (n div d) = of_int (n mod d) / of_int d"
    by simp
  have lt: "(of_int (n mod d) / of_int d < (1::rat) / 2) = (2 * (n mod d) < d)"
  proof -
    have "(of_int (n mod d) / of_int d < (1::rat) / 2) = ((of_int (2 * (n mod d)) :: rat) < of_int d)"
      using d by (simp add: field_simps)
    also have "\<dots> = (2 * (n mod d) < d)" by (simp only: of_int_less_iff)
    finally show ?thesis .
  qed
  have gt: "((1::rat) / 2 < of_int (n mod d) / of_int d) = (d < 2 * (n mod d))"
  proof -
    have "((1::rat) / 2 < of_int (n mod d) / of_int d) = ((of_int d :: rat) < of_int (2 * (n mod d)))"
      using d by (simp add: field_simps)
    also have "\<dots> = (d < 2 * (n mod d))" by (simp only: of_int_less_iff)
    finally show ?thesis .
  qed
  show ?thesis by (simp only: round_half_even_def Let_def fl fr lt gt)
qed

lemma round_half_even_samples:
  "round_half_even (9007199515875289 / 2) = 4503599757937644"
  "round_half_even (9007199254740993 / 2) = 4503599627370496"
  "round_half_even (9007199254740995 / 2) = 4503599627370498"
  "round_half_even (72057595648540681 / 16) = 4503599728033793"
  "round_half_even (1 / 4) = 0"
  using round_half_even_divide[of 2 9007199515875289] round_half_even_divide[of 2 9007199254740993]
    round_half_even_divide[of 2 9007199254740995] round_half_even_divide[of 16 72057595648540681]
    round_half_even_divide[of 4 1]
  by simp_all

lemma round_binary64_ties:
  "round_binary64 9007199515875289 = Fin 9007199515875288"
  "round_binary64 9007199254740993 = Fin 9007199254740992"
  "round_binary64 9007199254740995 = Fin 9007199254740996"
  by (subst round_binary64_pos[of _ 53]; simp add: round_half_even_samples binary64_overflow_def)+

lemma round_binary64_up: "round_binary64 72057595648540681 = Fin 72057595648540688"
  by (subst round_binary64_pos[of _ 56]; simp add: round_half_even_samples binary64_overflow_def)

lemma round_binary64_overflows:
  "round_binary64 (2 ^ 1024) = PInf"
  "round_binary64 ((2 ^ 53 - 1) * 2 ^ 972) = PInf"
  by (subst round_binary64_pos[of _ 1024];
      simp add: round_half_even_def Let_def binary64_overflow_def)+

lemma round_binary64_underflows: "round_binary64 (1 / 2 ^ 1076) = Fin 0"
  by (subst round_binary64_pos[of _ "- 1076"];
      simp add: round_half_even_samples binary64_overflow_def)

text \<open>
  C6. \<^verbatim>\<open>calcularQuadrado\<close> returns its argument to the power 2 as the host computes it:
  for a finite Number the exact square rounded to binary64, which is the square itself
  whenever the square is a binary64 value; plus infinity for both infinities; NaN for
  NaN. The result for a negative argument is not negative. The squares of 5, -4 and 0
  are 25, 16 and 0. The square of 94906267 is rounded down and that of 268435459 up,
  that of \<open>2^512\<close> overflows to plus infinity, that of \<open>2^-538\<close> underflows to 0.
\<close>

theorem calcularQuadrado_square:
  "calcularQuadrado (Fin q) = round_binary64 (q ^ 2)
   \<and> (q ^ 2 = of_int m * 2 powi k \<and> \<bar>m\<bar> < 2 ^ 53 \<and> - 1074 \<le> k
        \<and> q ^ 2 < binary64_overflow \<longrightarrow>
        calcularQuadrado (Fin q) = Fin (q ^ 2))
   \<and> calcularQuadrado NaN = NaN \<and> calcularQuadrado PInf = PInf \<and> calcularQuadrado NInf = PInf
   \<and> (number_less n (Fin 0) \<longrightarrow> number_less_eq (Fin 0) (calcularQuadrado n))
   \<and> calcularQuadrado (Fin 5) = Fin 25
   \<and> calcularQuadrado (Fin (- 4)) = Fin 16
   \<and> calcularQuadrado (Fin 0) = Fin 0
   \<and> calcularQuadrado (Fin 94906267) = Fin 9007199515875288
   \<and> calcularQuadrado (Fin 268435459) = Fin 72057595648540688
   \<and> calcularQuadrado (Fin (2 ^ 512)) = PInf
   \<and> calcularQuadrado (Fin (1 / 2 ^ 538)) = Fin 0"
proof -
  have sq: "calcularQuadrado (Fin x) = round_binary64 (x ^ 2)" for x
    by (simp add: calcularQuadrado_def numeral_2_eq_2)
  have exact: "calcularQuadrado (Fin q) = Fin (q ^ 2)"
    if "q ^ 2 = of_int m * 2 powi k" "\<bar>m\<bar> < 2 ^ 53" "- 1074 \<le> k" "q ^ 2 < binary64_overflow"
  proof -
    from that(4) have "\<bar>q ^ 2\<bar> < binary64_overflow" by simp
    with that(1-3) have "round_binary64 (q ^ 2) = Fin (q ^ 2)" by (rule round_binary64_exact)
    then show ?thesis by (simp only: sq)
  qed
  have neg: "number_less_eq (Fin 0) (calcularQuadrado n)" if "number_less n (Fin 0)"
  proof (cases n)
    case (Fin x)
    have "number_less_eq (Fin 0) (round_binary64 (x ^ 2))"
      by (rule round_binary64_nonneg) simp
    with Fin show ?thesis by (simp only: sq)
  next
    case NInf
    then show ?thesis
      by (simp add: calcularQuadrado_def numeral_2_eq_2 number_less_eq_def)
  qed (use that in simp_all)
  have inf: "calcularQuadrado NaN = NaN" "calcularQuadrado PInf = PInf"
    "calcularQuadrado NInf = PInf"
    by (simp_all add: calcularQuadrado_def numeral_2_eq_2)
  have v: "calcularQuadrado (Fin 5) = Fin 25" "calcularQuadrado (Fin (- 4)) = Fin 16"
    "calcularQuadrado (Fin 0) = Fin 0"
    by (simp_all add: sq round_binary64_small) (simp add: round_binary64_def)
  have r: "calcularQuadrado (Fin 94906267) = Fin 9007199515875288"
    "calcularQuadrado (Fin 268435459) = Fin 72057595648540688"
    "calcularQuadrado (Fin (2 ^ 512)) = PInf"
    "calcularQuadrado (Fin (1 / 2 ^ 538)) = Fin 0"
    using round_binary64_ties(1) round_binary64_up round_binary64_overflows(1)
      round_binary64_underflows
    by (simp_all add: sq power_divide)
  from sq[of q] exact neg inf v r show ?thesis by blast
qed

theorem calcularQuadrado_square_witness:
  "(5::rat) ^ 2 = of_int 25 * 2 powi 0 \<and> \<bar>25::int\<bar> < 2 ^ 53 \<and> (- 1074::int) \<le> 0
   \<and> (5::rat) ^ 2 < binary64_overflow \<and> calcularQuadrado (Fin 5) = Fin (5 ^ 2)
   \<and> number_less (Fin (- 4)) (Fin 0) \<and> number_less_eq (Fin 0) (calcularQuadrado (Fin (- 4)))
   \<and> number_less NInf (Fin 0) \<and> number_less_eq (Fin 0) (calcularQuadrado NInf)"
proof -
  have h: "(5::rat) ^ 2 = of_int 25 * 2 powi 0 \<and> \<bar>25::int\<bar> < 2 ^ 53 \<and> (- 1074::int) \<le> 0
      \<and> (5::rat) ^ 2 < binary64_overflow"
    by (simp add: binary64_overflow_def)
  have n1: "number_less (Fin (- 4)) (Fin 0)" and n2: "number_less NInf (Fin 0)" by simp_all
  note t1 = calcularQuadrado_square [where q = 5 and m = 25 and k = 0 and n = "Fin (- 4)"]
  note t2 = calcularQuadrado_square [where q = 5 and m = 25 and k = 0 and n = NInf]
  have a: "calcularQuadrado (Fin 5) = Fin (5 ^ 2)"
    using t1 [THEN conjunct2, THEN conjunct1, THEN mp, OF h] .
  have b: "number_less_eq (Fin 0) (calcularQuadrado (Fin (- 4)))"
    using t1 [THEN conjunct2, THEN conjunct2, THEN conjunct2, THEN conjunct2, THEN conjunct2,
      THEN conjunct1, THEN mp, OF n1] .
  have c: "number_less_eq (Fin 0) (calcularQuadrado NInf)"
    using t2 [THEN conjunct2, THEN conjunct2, THEN conjunct2, THEN conjunct2, THEN conjunct2,
      THEN conjunct1, THEN mp, OF n2] .
  from h a n1 b n2 c show ?thesis by blast
qed

text \<open>
  C7. \<^verbatim>\<open>Subtracao\<close> returns the difference of its arguments as the host computes it,
  with no case of its own: for finite Numbers the exact difference rounded to binary64,
  which is the difference itself whenever that is a binary64 value; NaN when an argument
  is NaN or both are the same infinity; otherwise the infinity that the infinite
  argument gives. 10 minus 3 is 7 and 3 minus 10 is -7. \<open>2^53\<close> minus -1 is rounded
  down to \<open>2^53\<close> and \<open>2^53\<close> minus -3 up to \<open>2^53 + 4\<close>, and the greatest binary64 minus its
  opposite overflows to plus infinity.
\<close>

theorem Subtracao_difference:
  "Subtracao (Fin a) (Fin b) = round_binary64 (a - b)
   \<and> (a - b = of_int m * 2 powi k \<and> \<bar>m\<bar> < 2 ^ 53 \<and> - 1074 \<le> k
        \<and> \<bar>a - b\<bar> < binary64_overflow \<longrightarrow>
        Subtracao (Fin a) (Fin b) = Fin (a - b))
   \<and> Subtracao NaN y = NaN \<and> Subtracao x NaN = NaN
   \<and> Subtracao PInf PInf = NaN \<and> Subtracao NInf NInf = NaN
   \<and> Subtracao PInf NInf = PInf \<and> Subtracao NInf PInf = NInf
   \<and> Subtracao PInf (Fin b) = PInf \<and> Subtracao NInf (Fin b) = NInf
   \<and> Subtracao (Fin a) PInf = NInf \<and> Subtracao (Fin a) NInf = PInf
   \<and> Subtracao (Fin 10) (Fin 3) = Fin 7
   \<and> Subtracao (Fin 3) (Fin 10) = Fin (- 7)
   \<and> Subtracao (Fin (2 ^ 53)) (Fin (- 1)) = Fin (2 ^ 53)
   \<and> Subtracao (Fin (2 ^ 53)) (Fin (- 3)) = Fin (2 ^ 53 + 4)
   \<and> Subtracao (Fin ((2 ^ 53 - 1) * 2 ^ 971)) (Fin (- ((2 ^ 53 - 1) * 2 ^ 971))) = PInf"
proof -
  have fin: "Subtracao (Fin u) (Fin v) = round_binary64 (u - v)" for u v
    by (simp add: Subtracao_def)
  have exact: "Subtracao (Fin a) (Fin b) = Fin (a - b)"
    if "a - b = of_int m * 2 powi k" "\<bar>m\<bar> < 2 ^ 53" "- 1074 \<le> k"
      "\<bar>a - b\<bar> < binary64_overflow"
  proof -
    from that have "round_binary64 (a - b) = Fin (a - b)" by (rule round_binary64_exact)
    then show ?thesis by (simp only: fin)
  qed
  have nan: "Subtracao NaN y = NaN" "Subtracao x NaN = NaN"
    by (cases x; simp add: Subtracao_def)+
  have inf: "Subtracao PInf PInf = NaN" "Subtracao NInf NInf = NaN"
    "Subtracao PInf NInf = PInf" "Subtracao NInf PInf = NInf"
    "Subtracao PInf (Fin b) = PInf" "Subtracao NInf (Fin b) = NInf"
    "Subtracao (Fin a) PInf = NInf" "Subtracao (Fin a) NInf = PInf"
    by (simp_all add: Subtracao_def)
  have v: "Subtracao (Fin 10) (Fin 3) = Fin 7" "Subtracao (Fin 3) (Fin 10) = Fin (- 7)"
    by (simp_all add: fin round_binary64_small)
  have "(2::rat) ^ 53 - (- 1) = 9007199254740993" by simp
  then have r1: "Subtracao (Fin (2 ^ 53)) (Fin (- 1)) = Fin (2 ^ 53)"
    using round_binary64_ties(2) by (simp only: fin) simp
  have "(2::rat) ^ 53 - (- 3) = 9007199254740995" by simp
  then have r3: "Subtracao (Fin (2 ^ 53)) (Fin (- 3)) = Fin (2 ^ 53 + 4)"
    using round_binary64_ties(3) by (simp only: fin) simp
  have "((2::rat) ^ 53 - 1) * 2 ^ 971 - (- ((2 ^ 53 - 1) * 2 ^ 971)) = (2 ^ 53 - 1) * 2 ^ 972"
    by simp
  then have r2: "Subtracao (Fin ((2 ^ 53 - 1) * 2 ^ 971)) (Fin (- ((2 ^ 53 - 1) * 2 ^ 971))) = PInf"
    using round_binary64_overflows(2) by (simp only: fin)
  from fin[of a b] exact nan inf v r1 r3 r2 show ?thesis by blast
qed

theorem Subtracao_difference_witness:
  "(10::rat) - 3 = of_int 7 * 2 powi 0 \<and> \<bar>7::int\<bar> < 2 ^ 53 \<and> (- 1074::int) \<le> 0
   \<and> \<bar>(10::rat) - 3\<bar> < binary64_overflow \<and> Subtracao (Fin 10) (Fin 3) = Fin (10 - 3)"
proof -
  have h: "(10::rat) - 3 = of_int 7 * 2 powi 0 \<and> \<bar>7::int\<bar> < 2 ^ 53 \<and> (- 1074::int) \<le> 0
      \<and> \<bar>(10::rat) - 3\<bar> < binary64_overflow"
    by (simp add: binary64_overflow_def)
  have "Subtracao (Fin 10) (Fin 3) = Fin (10 - 3)"
    using Subtracao_difference [where a = 10 and b = 3 and m = 7 and k = 0,
      THEN conjunct2, THEN conjunct1, THEN mp, OF h] .
  with h show ?thesis by blast
qed

subsection \<open>The statements at top level\<close>

lemma top_level_None_iff:
  "top_level w0 = None \<longleftrightarrow> (\<forall>n. parseInt (input w0 !! n) \<noteq> Fin 3)"
proof -
  have "top_level w0 = None \<longleftrightarrow> loopWhile (console_log [JStr hdr_loop_while] w0) = None"
    by (simp add: top_level_def Let_def split: option.splits)
  then show ?thesis by (simp add: loopWhile_None_iff console_log_def)
qed

lemma top_level_run:
  assumes "xs \<noteq> []" and "\<forall>x\<in>set (butlast xs). parseInt x \<noteq> Fin 3"
    and "parseInt (last xs) = Fin 3" and "input w0 = xs @- s"
  shows "top_level w0 =
     Some (w0\<lparr>input := sdrop 5 (sdrop (senha_dialogs s) s),
             trace := trace w0 @ top_level_events xs s\<rparr>)"
proof -
  let ?w1 = "console_log [JStr hdr_loop_while] w0"
  have "input ?w1 = xs @- s" using assms(4) by (simp add: console_log_def)
  with assms(1-3) have "loopWhile ?w1 =
     Some (?w1\<lparr>input := s,
       trace := trace ?w1 @ Prompt msg_digite_um_numero # concat (map digitou_round (butlast xs))
         @ [Log [JStr msg_encerrando]]\<rparr>)"
    by (rule loopWhile_run)
  then show ?thesis
    by (simp add: top_level_def Let_def validaSenha_eq exibirListaFixa_eq solicitarCincoNumeros_eq
        functions_values console_log_def top_level_events_def)
qed

lemma header_strings_neq:
  "msg_encerrando \<notin> set [hdr_loop_while, hdr_validacao_de_senha, hdr_lista_fixa, hdr_solicitacao, hdr_funcoes]"
  "msg_acesso_concedido \<notin> set [hdr_loop_while, hdr_validacao_de_senha, hdr_lista_fixa, hdr_solicitacao, hdr_funcoes]"
  "msg_senha_bloqueada \<notin> set [hdr_loop_while, hdr_validacao_de_senha, hdr_lista_fixa, hdr_solicitacao, hdr_funcoes]"
  "msg_lista_fixa \<notin> set [hdr_loop_while, hdr_validacao_de_senha, hdr_lista_fixa, hdr_solicitacao, hdr_funcoes]"
  "msg_numeros_digitados \<notin> set [hdr_loop_while, hdr_validacao_de_senha, hdr_lista_fixa, hdr_solicitacao, hdr_funcoes]"
  "mensagemPersonalizada \<notin> set [hdr_loop_while, hdr_validacao_de_senha, hdr_lista_fixa, hdr_solicitacao, hdr_funcoes]"
  "saudacao nome \<notin> set [hdr_loop_while, hdr_validacao_de_senha, hdr_lista_fixa, hdr_solicitacao, hdr_funcoes]"
  by (simp_all add: js_def msg_encerrando_def msg_acesso_concedido_def msg_senha_bloqueada_def
      msg_lista_fixa_def msg_numeros_digitados_def mensagemPersonalizada_def saudacao_def
      hdr_loop_while_def hdr_validacao_de_senha_def hdr_lista_fixa_def hdr_solicitacao_def
      hdr_funcoes_def)

lemma header_strings_in:
  "hdr_loop_while \<in> set [hdr_loop_while, hdr_validacao_de_senha, hdr_lista_fixa, hdr_solicitacao, hdr_funcoes]"
  "hdr_validacao_de_senha \<in> set [hdr_loop_while, hdr_validacao_de_senha, hdr_lista_fixa, hdr_solicitacao, hdr_funcoes]"
  "hdr_lista_fixa \<in> set [hdr_loop_while, hdr_validacao_de_senha, hdr_lista_fixa, hdr_solicitacao, hdr_funcoes]"
  "hdr_solicitacao \<in> set [hdr_loop_while, hdr_validacao_de_senha, hdr_lista_fixa, hdr_solicitacao, hdr_funcoes]"
  "hdr_funcoes \<in> set [hdr_loop_while, hdr_validacao_de_senha, hdr_lista_fixa, hdr_solicitacao, hdr_funcoes]"
  by simp_all

lemma filter_header_rounds: "filter is_section_header (concat (map digitou_round ys)) = []"
  by (induction ys) (simp_all add: digitou_round_def)

lemma filter_header_numbers:
  "filter is_section_header (map (\<lambda>numero. Log [JNum numero]) ns) = []"
  by (induction ns) simp_all

lemma filter_header_prompts: "filter is_section_header (replicate k (Prompt m)) = []"
  by (induction k) simp_all

lemma top_level_events_headers:
  "filter is_section_header (top_level_events xs s) =
     [Log [JStr hdr_loop_while], Log [JStr hdr_validacao_de_senha], Log [JStr hdr_lista_fixa],
      Log [JStr hdr_solicitacao], Log [JStr hdr_funcoes]]"
  using header_strings_neq header_strings_in
  by (simp add: top_level_events_def filter_header_rounds filter_header_numbers
      filter_header_prompts del: set_simps)

lemma parseFloat_3: "parseFloat (Str (js ''3'')) = Fin 3"
  by (simp add: parseFloat_def js_def TrimString_start_def is_white_space_def
      is_decimal_digit_def digit_value_def digits_value_def exponent_part_def scale10_def
      round_binary64_parsed)

lemma senha_3: "Str (js ''3'') \<noteq> Str senhaCorreta"
  by (simp add: senhaCorreta_def js_def)

lemma top_level_events_all_3:
  "top_level_events [Str (js ''3'')] (sconst (Str (js ''3''))) =
     [Log [JStr hdr_loop_while], Prompt msg_digite_um_numero, Log [JStr msg_encerrando],
      Log [JStr hdr_validacao_de_senha], Prompt msg_digite_a_senha, Prompt msg_digite_a_senha,
      Prompt msg_digite_a_senha, Log [JStr msg_senha_bloqueada],
      Log [JStr hdr_lista_fixa], Log [JStr msg_lista_fixa], Log [JNum (Fin 10)],
      Log [JNum (Fin 20)], Log [JNum (Fin 30)], Log [JNum (Fin 40)],
      Log [JStr hdr_solicitacao], Prompt (msg_digite_o 0), Prompt (msg_digite_o 1),
      Prompt (msg_digite_o 2), Prompt (msg_digite_o 3), Prompt (msg_digite_o 4),
      Log [JStr msg_numeros_digitados], Log [JNum (Fin 3)], Log [JNum (Fin 3)],
      Log [JNum (Fin 3)], Log [JNum (Fin 3)], Log [JNum (Fin 3)],
      Log [JStr hdr_funcoes], Log [JStr mensagemPersonalizada],
      Log [JStr (saudacao (js ''Ana''))],
      Log [JStr msg_quadrado_de_5, JNum (Fin 25)],
      Log [JStr msg_subtracao_de_10_e_3, JNum (Fin 7)]]"
  using senha_3
  by (simp add: top_level_events_def senha_dialogs_def parseFloat_3 numeral_3_eq_3 upt_rec
      numeral_eq_Suc)

lemma top_level_all_3:
  "top_level (init_world (sconst (Str (js ''3'')))) =
     Some \<lparr>input = sconst (Str (js ''3'')),
            trace = top_level_events [Str (js ''3'')] (sconst (Str (js ''3'')))\<rparr>"
proof -
  have i: "input (init_world (sconst (Str (js ''3'')))) = [Str (js ''3'')] @- sconst (Str (js ''3''))"
    using shift_replicate_sconst[of 1 "Str (js ''3'')"] by (simp add: init_world_def)
  have "top_level (init_world (sconst (Str (js ''3'')))) =
     Some (init_world (sconst (Str (js ''3'')))
       \<lparr>input := sdrop 5 (sdrop (senha_dialogs (sconst (Str (js ''3'')))) (sconst (Str (js ''3'')))),
        trace := trace (init_world (sconst (Str (js ''3''))))
          @ top_level_events [Str (js ''3'')] (sconst (Str (js ''3'')))\<rparr>)"
    by (rule top_level_run[OF _ _ _ i]) (simp_all add: parseInt_examples)
  then show ?thesis by (simp add: init_world_def)
qed

text \<open>
  C8 (amended). In a run in which \<^verbatim>\<open>loopWhile\<close> returns, having read the answers \<open>xs\<close>
  of which the last is the first that parses to 3, the script calls \<^verbatim>\<open>loopWhile\<close>,
  \<^verbatim>\<open>validaSenha\<close>, \<^verbatim>\<open>exibirListaFixa\<close>, \<^verbatim>\<open>solicitarCincoNumeros\<close>, the three text functions
  and \<^verbatim>\<open>Subtracao\<close> once each in that order. It logs five section headers: one before each
  of the first four components, and one before the lines of the text functions and of
  \<^verbatim>\<open>Subtracao\<close> together. The script ends if and only if some answer parses to 3;
  otherwise it never leaves \<^verbatim>\<open>loopWhile\<close> and no later component runs.
\<close>

theorem top_level_runs_in_order:
  "(xs \<noteq> [] \<and> (\<forall>x\<in>set (butlast xs). parseInt x \<noteq> Fin 3) \<and> parseInt (last xs) = Fin 3
      \<and> input w0 = xs @- s \<longrightarrow>
      top_level w0 =
        Some (w0\<lparr>input := sdrop 5 (sdrop (senha_dialogs s) s),
                trace := trace w0 @ top_level_events xs s\<rparr>))
   \<and> filter is_section_header (top_level_events xs s) =
        [Log [JStr hdr_loop_while], Log [JStr hdr_validacao_de_senha],
         Log [JStr hdr_lista_fixa], Log [JStr hdr_solicitacao], Log [JStr hdr_funcoes]]
   \<and> ((\<exists>w'. top_level w0 = Some w') \<longleftrightarrow> (\<exists>n. parseInt (input w0 !! n) = Fin 3))
   \<and> ((\<forall>n. parseInt (input w0 !! n) \<noteq> Fin 3) \<longrightarrow> top_level w0 = None)"
proof -
  have a: "top_level w0 =
        Some (w0\<lparr>input := sdrop 5 (sdrop (senha_dialogs s) s),
                trace := trace w0 @ top_level_events xs s\<rparr>)"
    if "xs \<noteq> []" "\<forall>x\<in>set (butlast xs). parseInt x \<noteq> Fin 3" "parseInt (last xs) = Fin 3"
      "input w0 = xs @- s"
    using that by (rule top_level_run)
  have b: "(\<exists>w'. top_level w0 = Some w') \<longleftrightarrow> (\<exists>n. parseInt (input w0 !! n) = Fin 3)"
    using top_level_None_iff[of w0] by (cases "top_level w0") auto
  have c: "(\<forall>n. parseInt (input w0 !! n) \<noteq> Fin 3) \<longrightarrow> top_level w0 = None"
    by (simp add: top_level_None_iff)
  from a b c top_level_events_headers[of xs s] show ?thesis by blast
qed

theorem top_level_runs_in_order_witness:
  "top_level (init_world ([Str (js ''3'')] @- sconst (Str (js ''3'')))) =
     Some \<lparr>input = sconst (Str (js ''3'')),
            trace = top_level_events [Str (js ''3'')] (sconst (Str (js ''3'')))\<rparr>
   \<and> top_level (init_world (sconst Null)) = None"
proof -
  have a: "[Str (js ''3'')] \<noteq> [] \<and> (\<forall>x\<in>set (butlast [Str (js ''3'')]). parseInt x \<noteq> Fin 3)
      \<and> parseInt (last [Str (js ''3'')]) = Fin 3
      \<and> input (init_world ([Str (js ''3'')] @- sconst (Str (js ''3''))))
          = [Str (js ''3'')] @- sconst (Str (js ''3''))"
    by (simp add: parseInt_examples init_world_def)
  have b: "\<forall>n. parseInt (input (init_world (sconst Null)) !! n) \<noteq> Fin 3"
    by (simp add: init_world_def parseInt_examples)
  have a': "top_level (init_world ([Str (js ''3'')] @- sconst (Str (js ''3'')))) =
     Some \<lparr>input = sconst (Str (js ''3'')),
            trace = top_level_events [Str (js ''3'')] (sconst (Str (js ''3'')))\<rparr>"
    using top_level_runs_in_order
        [of "[Str (js ''3'')]" "init_world ([Str (js ''3'')] @- sconst (Str (js ''3'')))"
            "sconst (Str (js ''3''))", THEN conjunct1, THEN mp, OF a]
    by (simp add: init_world_def)
  have b': "top_level (init_world (sconst Null)) = None"
    using top_level_runs_in_order
        [of "[]" "init_world (sconst Null)" "sconst Null", THEN conjunct2, THEN conjunct2,
         THEN conjunct2, THEN mp, OF b] .
  from a' b' show ?thesis ..
qed

text \<open>
  Two runs that C8 without the amendment does not describe. When every answer is
  \<^verbatim>\<open>abc\<close> the script never gets past \<^verbatim>\<open>loopWhile\<close>. When every answer is \<^verbatim>\<open>3\<close> the run
  ends with five section headers for the six components, and the line of \<^verbatim>\<open>Subtracao\<close>
  follows the line of \<^verbatim>\<open>calcularQuadrado\<close> with no header between them.
\<close>

theorem top_level_runs_in_order_counterexample:
  "top_level (init_world (sconst (Str (js ''abc'')))) = None
   \<and> top_level (init_world (sconst (Str (js ''3'')))) =
     Some \<lparr>input = sconst (Str (js ''3'')),
       trace =
         [Log [JStr hdr_loop_while], Prompt msg_digite_um_numero, Log [JStr msg_encerrando],
          Log [JStr hdr_validacao_de_senha], Prompt msg_digite_a_senha,
          Prompt msg_digite_a_senha, Prompt msg_digite_a_senha, Log [JStr msg_senha_bloqueada],
          Log [JStr hdr_lista_fixa], Log [JStr msg_lista_fixa], Log [JNum (Fin 10)],
          Log [JNum (Fin 20)], Log [JNum (Fin 30)], Log [JNum (Fin 40)],
          Log [JStr hdr_solicitacao], Prompt (msg_digite_o 0), Prompt (msg_digite_o 1),
          Prompt (msg_digite_o 2), Prompt (msg_digite_o 3), Prompt (msg_digite_o 4),
          Log [JStr msg_numeros_digitados], Log [JNum (Fin 3)], Log [JNum (Fin 3)],
          Log [JNum (Fin 3)], Log [JNum (Fin 3)], Log [JNum (Fin 3)],
          Log [JStr hdr_funcoes], Log [JStr mensagemPersonalizada],
          Log [JStr (saudacao (js ''Ana''))],
          Log [JStr msg_quadrado_de_5, JNum (Fin 25)],
          Log [JStr msg_subtracao_de_10_e_3, JNum (Fin 7)]]\<rparr>
   \<and> section_headers (top_level (init_world (sconst (Str (js ''3''))))) =
       [Log [JStr hdr_loop_while], Log [JStr hdr_validacao_de_senha],
        Log [JStr hdr_lista_fixa], Log [JStr hdr_solicitacao], Log [JStr hdr_funcoes]]"
proof -
  have a: "top_level (init_world (sconst (Str (js ''abc'')))) = None"
    by (simp add: top_level_None_iff init_world_def parseInt_examples)
  have c: "section_headers (top_level (init_world (sconst (Str (js ''3''))))) =
       [Log [JStr hdr_loop_while], Log [JStr hdr_validacao_de_senha],
        Log [JStr hdr_lista_fixa], Log [JStr hdr_solicitacao], Log [JStr hdr_funcoes]]"
    by (simp only: top_level_all_3 section_headers_def option.case world.simps
        top_level_events_headers)
  have b: "top_level (init_world (sconst (Str (js ''3'')))) =
     Some \<lparr>input = sconst (Str (js ''3'')),
            trace = top_level_events [Str (js ''3'')] (sconst (Str (js ''3'')))\<rparr>"
    by (rule top_level_all_3)
  from a b c show ?thesis by (simp only: top_level_events_all_3 simp_thms)
qed

end
